theory Spec2Isabelle
  imports Complex_Main "HOL-Library.AList"
begin

section \<open>Values of the persisted registry\<close>

text \<open>
  The registry file \<^verbatim>\<open>smarthomedevices.json\<close> is read with \<^verbatim>\<open>json.loads\<close> and written
  with \<^verbatim>\<open>json.dumps\<close>. A parsed document is a Python value built from \<^verbatim>\<open>None\<close>,
  \<^verbatim>\<open>bool\<close>, \<^verbatim>\<open>int\<close>, \<^verbatim>\<open>float\<close>, \<^verbatim>\<open>str\<close>, \<^verbatim>\<open>list\<close> and \<^verbatim>\<open>dict\<close>. A \<^verbatim>\<open>dict\<close> keeps
  its insertion order, so it is an association list (keys in file order); a finite
  \<^verbatim>\<open>float\<close> is the rational number it denotes (the non-finite floats are not
  represented).
\<close>

type_synonym 'v pydict = "(string \<times> 'v) list"

datatype json =
    JNull
  | JBool bool
  | JInt int
  | JFloat rat
  | JStr string
  | JList "json list"
  | JDict "(string \<times> json) list"

text \<open>
  Python's \<^verbatim>\<open>==\<close> on such values: \<^verbatim>\<open>bool\<close>, \<^verbatim>\<open>int\<close> and \<^verbatim>\<open>float\<close> compare by their
  numeric value (\<^verbatim>\<open>True == 1\<close>, \<^verbatim>\<open>1 == 1.0\<close>), lists compare element by element, and two
  dicts are equal when they have the same number of keys and every key of the first has
  an equal value in the second (whatever the order); values of different kinds differ.
\<close>

fun num_value :: "json \<Rightarrow> rat option" where
  "num_value (JBool b) = Some (if b then 1 else 0)"
| "num_value (JInt n) = Some (of_int n)"
| "num_value (JFloat q) = Some q"
| "num_value _ = None"

lemma size_list_member: "a \<in> set xs \<Longrightarrow> size a < Suc (size_list size xs)"
  by (induction xs) auto

lemma size_dict_member:
  "(k, v) \<in> set kvs \<Longrightarrow> size v < Suc (size_list (size_prod (\<lambda>x. 0) size) kvs)"
  by (induction kvs) auto

function (sequential) py_eq :: "json \<Rightarrow> json \<Rightarrow> bool" where
  "py_eq JNull y = (y = JNull)"
| "py_eq (JBool b) y = (num_value y = Some (if b then 1 else 0))"
| "py_eq (JInt n) y = (num_value y = Some (of_int n))"
| "py_eq (JFloat q) y = (num_value y = Some q)"
| "py_eq (JStr s) y = (y = JStr s)"
| "py_eq (JList xs) y =
     (case y of
        JList ys \<Rightarrow> length xs = length ys \<and> list_all (\<lambda>(x, y'). py_eq x y') (zip xs ys)
      | _ \<Rightarrow> False)"
| "py_eq (JDict kvs) y =
     (case y of
        JDict lws \<Rightarrow>
          length kvs = length lws \<and>
          list_all (\<lambda>(k, v). case map_of lws k of None \<Rightarrow> False | Some w \<Rightarrow> py_eq v w) kvs
      | _ \<Rightarrow> False)"
  by pat_completeness auto

termination
proof (relation "measure (\<lambda>(x, y). size x)")
  show "wf (measure (\<lambda>(x, y). size x))" by simp
next
  fix xs x6 :: "json list" and y ya xa :: json and x :: "json \<times> json"
  assume "x \<in> set (zip xs x6)" "(xa, ya) = x"
  then have "xa \<in> set xs" by (auto dest: set_zip_leftD)
  then show "((xa, ya), JList xs, y) \<in> measure (\<lambda>(x, y). size x)"
    by (simp add: size_list_member)
next
  fix kvs :: "(string \<times> json) list" and y ya x2 :: json and xa :: string
    and x :: "string \<times> json"
  assume "x \<in> set kvs" "(xa, ya) = x"
  then have "(xa, ya) \<in> set kvs" by simp
  then show "((ya, x2), JDict kvs, y) \<in> measure (\<lambda>(x, y). size x)"
    by (simp add: size_dict_member)
qed

text \<open>
  The operations of Python on a parsed value that the program uses: \<^verbatim>\<open>[*v]\<close>
  (iteration: the keys of a dict, the elements of a list, the characters of a string,
  \<^verbatim>\<open>TypeError\<close> on anything else), \<^verbatim>\<open>v["k"]\<close> (\<^verbatim>\<open>KeyError\<close> on a dict without
  the key, \<^verbatim>\<open>TypeError\<close> on every other value) and \<^verbatim>\<open>v.items()\<close> (\<^verbatim>\<open>AttributeError\<close>
  on everything but a dict).
\<close>

datatype invalid = Structure | IpAddress | Port | OnionAddress | PublicKey string

datatype error =
    InvalidDevice string invalid
  | TypeError
  | AttributeError
  | KeyError
  | ValueError
  | JSONDecodeError
  | FileNotFoundError
  | OSError
  | KeyboardInterrupt
  | ControlError

text \<open>
  \<open>InvalidDevice name what\<close> is the \<^verbatim>\<open>TypeError\<close> that \<^verbatim>\<open>_get_registered_devices\<close>
  raises itself, with the message naming the device \<open>name\<close> and what is wrong with it
  (for a public key, the client too); \<open>TypeError\<close> is one raised by the interpreter.
  \<open>ControlError\<close> stands for any exception raised by the Tor control functions.
\<close>

fun unpack :: "json \<Rightarrow> error + json list" where
  "unpack (JDict kvs) = Inr (map (\<lambda>(k, v). JStr k) kvs)"
| "unpack (JList xs) = Inr xs"
| "unpack (JStr s) = Inr (map (\<lambda>c. JStr [c]) s)"
| "unpack _ = Inl TypeError"

fun getitem :: "json \<Rightarrow> string \<Rightarrow> error + json" where
  "getitem (JDict kvs) k = (case map_of kvs k of None \<Rightarrow> Inl KeyError | Some v \<Rightarrow> Inr v)"
| "getitem _ k = Inl TypeError"

fun items :: "json \<Rightarrow> error + json pydict" where
  "items (JDict kvs) = Inr kvs"
| "items _ = Inl AttributeError"

section \<open>The registry and its file\<close>

text \<open>
  A device of \<^verbatim>\<open>self._registered_devices\<close> is a dict with the keys \<^verbatim>\<open>ip_address\<close>,
  \<^verbatim>\<open>port\<close>, \<^verbatim>\<open>onion_address\<close> and \<^verbatim>\<open>clients\<close>, in this order: the program builds it so
  in \<^verbatim>\<open>_add_device\<close>, accepts nothing else when it loads the file, and never adds or
  removes a key. The first three values are whatever the file held (nothing converts
  them), the last is the dict of the clients' public keys.
\<close>

record device =
  ip_address :: json
  port :: json
  onion_address :: json
  clients :: "json pydict"

type_synonym registry = "device pydict"

text \<open>
  The functions of \<^verbatim>\<open>common/validation.py\<close> that the loader calls are not part of the
  sources at hand; they are parameters of the model.
\<close>

record validation =
  validate_ip_address :: "json \<Rightarrow> bool"
  validate_port :: "json \<Rightarrow> bool"
  validate_onion_v3_address :: "json \<Rightarrow> bool"
  validate_base32_key :: "json \<Rightarrow> bool"

text \<open>
  The file is absent (\<open>None\<close>) or holds a text; \<^verbatim>\<open>json.loads\<close> either parses the text
  to a value or raises.
\<close>

datatype file_text = Unparsable | Text json

fun json_loads :: "file_text \<Rightarrow> error + json" where
  "json_loads Unparsable = Inl JSONDecodeError"
| "json_loads (Text doc) = Inr doc"

definition device_json :: "device \<Rightarrow> json" where
  "device_json d =
     JDict [(''ip_address'', ip_address d), (''port'', port d),
            (''onion_address'', onion_address d), (''clients'', JDict (clients d))]"

definition json_dumps :: "registry \<Rightarrow> file_text" where
  "json_dumps devices = Text (JDict (map (\<lambda>(name, d). (name, device_json d)) devices))"

definition values_list :: "string list" where
  "values_list = [''ip_address'', ''port'', ''onion_address'', ''clients'']"

fun validate_clients :: "validation \<Rightarrow> string \<Rightarrow> json pydict \<Rightarrow> error + unit" where
  "validate_clients V device_name [] = Inr ()"
| "validate_clients V device_name ((client_name, public_key) # rest) =
     (if \<not> validate_base32_key V public_key
      then Inl (InvalidDevice device_name (PublicKey client_name))
      else validate_clients V device_name rest)"

definition validate_device :: "validation \<Rightarrow> string \<Rightarrow> json \<Rightarrow> error + device" where
  "validate_device V device_name device_value =
     (case unpack device_value of
        Inl e \<Rightarrow> Inl e
      | Inr keys \<Rightarrow>
          if \<not> py_eq (JList (map JStr values_list)) (JList keys)
          then Inl (InvalidDevice device_name Structure)
          else (case getitem device_value ''ip_address'' of
            Inl e \<Rightarrow> Inl e
          | Inr ip \<Rightarrow>
              if \<not> validate_ip_address V ip then Inl (InvalidDevice device_name IpAddress)
              else (case getitem device_value ''port'' of
                Inl e \<Rightarrow> Inl e
              | Inr p \<Rightarrow>
                  if \<not> validate_port V p then Inl (InvalidDevice device_name Port)
                  else (case getitem device_value ''onion_address'' of
                    Inl e \<Rightarrow> Inl e
                  | Inr oa \<Rightarrow>
                      if \<not> validate_onion_v3_address V oa
                      then Inl (InvalidDevice device_name OnionAddress)
                      else (case getitem device_value ''clients'' of
                        Inl e \<Rightarrow> Inl e
                      | Inr cl \<Rightarrow>
                          (case items cl of
                            Inl e \<Rightarrow> Inl e
                          | Inr cs \<Rightarrow>
                              (case validate_clients V device_name cs of
                                Inl e \<Rightarrow> Inl e
                              | Inr _ \<Rightarrow>
                                  Inr \<lparr>ip_address = ip, port = p, onion_address = oa,
                                       clients = cs\<rparr>)))))))"

fun validate_devices :: "validation \<Rightarrow> json pydict \<Rightarrow> error + registry" where
  "validate_devices V [] = Inr []"
| "validate_devices V ((device_name, device_value) # rest) =
     (case validate_device V device_name device_value of
        Inl e \<Rightarrow> Inl e
      | Inr d \<Rightarrow>
          (case validate_devices V rest of
            Inl e \<Rightarrow> Inl e
          | Inr ds \<Rightarrow> Inr ((device_name, d) # ds)))"

definition get_registered_devices :: "validation \<Rightarrow> file_text option \<Rightarrow> error + registry" where
  "get_registered_devices V registered_devices_file =
     (case registered_devices_file of
        None \<Rightarrow> Inr []
      | Some text \<Rightarrow>
          (case json_loads text of
            Inl e \<Rightarrow> Inl e
          | Inr doc \<Rightarrow>
              (case items doc of
                Inl e \<Rightarrow> Inl e
              | Inr devices \<Rightarrow> validate_devices V devices)))"

text \<open>
  What the loader accepts, said without the loader: an entry is well formed when it is
  a dict whose keys are exactly \<^verbatim>\<open>ip_address\<close>, \<^verbatim>\<open>port\<close>, \<^verbatim>\<open>onion_address\<close>, \<^verbatim>\<open>clients\<close>
  in this order, whose first three values pass their validation functions, and whose
  clients are a dict of keys that pass theirs.
\<close>

definition well_formed_entry :: "validation \<Rightarrow> json \<Rightarrow> bool" where
  "well_formed_entry V device_value =
     (case device_value of
        JDict kvs \<Rightarrow>
          map fst kvs = values_list \<and>
          (case map snd kvs of
             [ip, p, oa, JDict cs] \<Rightarrow>
               validate_ip_address V ip \<and> validate_port V p \<and>
               validate_onion_v3_address V oa \<and>
               list_all (\<lambda>(client_name, public_key). validate_base32_key V public_key) cs
           | _ \<Rightarrow> False)
      | _ \<Rightarrow> False)"


text \<open>
  An entry that is a dict whose \<^verbatim>\<open>clients\<close>, when it has some, are a dict; and what the
  message of an \<open>InvalidDevice\<close> error says about the entry it names.
\<close>

definition entry_is_object :: "json \<Rightarrow> bool" where
  "entry_is_object device_value =
     (case device_value of
        JDict kvs \<Rightarrow>
          (case map_of kvs ''clients'' of
             None \<Rightarrow> True
           | Some (JDict cs) \<Rightarrow> True
           | Some _ \<Rightarrow> False)
      | _ \<Rightarrow> False)"

fun violates :: "validation \<Rightarrow> invalid \<Rightarrow> json \<Rightarrow> bool" where
  "violates V Structure (JDict kvs) = (map fst kvs \<noteq> values_list)"
| "violates V IpAddress (JDict kvs) =
     (case map_of kvs ''ip_address'' of Some ip \<Rightarrow> \<not> validate_ip_address V ip | None \<Rightarrow> False)"
| "violates V Port (JDict kvs) =
     (case map_of kvs ''port'' of Some p \<Rightarrow> \<not> validate_port V p | None \<Rightarrow> False)"
| "violates V OnionAddress (JDict kvs) =
     (case map_of kvs ''onion_address'' of
        Some oa \<Rightarrow> \<not> validate_onion_v3_address V oa
      | None \<Rightarrow> False)"
| "violates V (PublicKey client_name) (JDict kvs) =
     (case map_of kvs ''clients'' of
        Some (JDict cs) \<Rightarrow>
          list_ex (\<lambda>(c, public_key). c = client_name \<and> \<not> validate_base32_key V public_key) cs
      | _ \<Rightarrow> False)"
| "violates V what _ = False"

text \<open>
  For the examples: validation functions that accept the non-empty strings, and as a
  port the integers from 1 to 65535.
\<close>

definition example_validation :: validation where
  "example_validation =
     \<lparr>validate_ip_address = (\<lambda>v. case v of JStr s \<Rightarrow> s \<noteq> [] | _ \<Rightarrow> False),
      validate_port = (\<lambda>v. case v of JInt n \<Rightarrow> 1 \<le> n \<and> n \<le> 65535 | _ \<Rightarrow> False),
      validate_onion_v3_address = (\<lambda>v. case v of JStr s \<Rightarrow> s \<noteq> [] | _ \<Rightarrow> False),
      validate_base32_key = (\<lambda>v. case v of JStr s \<Rightarrow> s \<noteq> [] | _ \<Rightarrow> False)\<rparr>"

section \<open>The onion-service directories\<close>

text \<open>
  Below \<^verbatim>\<open>self._onion_service_main_dir\<close> there is one directory per device, named by
  the device. It holds the service's own files, which the program never reads, and the
  folder of the client authorization files, one \<^verbatim>\<open>name.auth\<close> per client, here a
  listing from the client's name to the key the file holds. A directory that exists
  holds the service's files, so it is never empty.
\<close>

record onion_service =
  service_state :: string
  authorized_clients :: "string pydict"

type_synonym directories = "onion_service pydict"

text \<open>\<^verbatim>\<open>shutil.rmtree(dir)\<close>: removes the directory, \<^verbatim>\<open>FileNotFoundError\<close> without it.\<close>

definition rmtree :: "directories \<Rightarrow> string \<Rightarrow> error + directories" where
  "rmtree dirs dir =
     (if dir \<in> set (map fst dirs) then Inr (AList.delete dir dirs) else Inl FileNotFoundError)"

text \<open>
  \<^verbatim>\<open>dir.replace(new_dir)\<close> on a directory: \<^verbatim>\<open>FileNotFoundError\<close> without the source,
  \<^verbatim>\<open>OSError\<close> when the target exists (it is not empty), else the directory moves.
\<close>

definition replace_dir :: "directories \<Rightarrow> string \<Rightarrow> string \<Rightarrow> error + directories" where
  "replace_dir dirs dir new_dir =
     (case map_of dirs dir of
        None \<Rightarrow> Inl FileNotFoundError
      | Some content \<Rightarrow>
          if dir = new_dir then Inr dirs
          else if new_dir \<in> set (map fst dirs) then Inl OSError
          else Inr (AList.update new_dir content (AList.delete dir dirs)))"

text \<open>\<^verbatim>\<open>client_file.unlink()\<close>: \<^verbatim>\<open>FileNotFoundError\<close> without the file.\<close>

definition unlink :: "directories \<Rightarrow> string \<Rightarrow> string \<Rightarrow> error + directories" where
  "unlink dirs dir client_name =
     (case map_of dirs dir of
        None \<Rightarrow> Inl FileNotFoundError
      | Some content \<Rightarrow>
          if client_name \<in> set (map fst (authorized_clients content))
          then Inr (AList.update dir
                 (content\<lparr>authorized_clients :=
                    AList.delete client_name (authorized_clients content)\<rparr>) dirs)
          else Inl FileNotFoundError)"

text \<open>
  \<^verbatim>\<open>old_file.replace(new_file)\<close> on two files of one directory: \<^verbatim>\<open>FileNotFoundError\<close>
  without the source; a file of the new name is overwritten.
\<close>

definition replace_file :: "directories \<Rightarrow> string \<Rightarrow> string \<Rightarrow> string \<Rightarrow> error + directories" where
  "replace_file dirs dir client_name new_client_name =
     (case map_of dirs dir of
        None \<Rightarrow> Inl FileNotFoundError
      | Some content \<Rightarrow>
          (case map_of (authorized_clients content) client_name of
            None \<Rightarrow> Inl FileNotFoundError
          | Some key \<Rightarrow>
              Inr (AList.update dir
                (content\<lparr>authorized_clients :=
                   AList.update new_client_name key
                     (AList.delete client_name (authorized_clients content))\<rparr>) dirs)))"

section \<open>The collaborators\<close>

text \<open>
  \<^verbatim>\<open>common/tor_server.py\<close> and the configuration object are not part of the sources at
  hand. What a call of the Tor control functions answers (an address, or an exception)
  and how the standard library's \<^verbatim>\<open>ipaddress.ip_address\<close> classifies a string (\<open>None\<close>
  for its \<^verbatim>\<open>ValueError\<close>) are parameters of the model.
\<close>

datatype ip_class = IPv4Address | IPv6Address

record collaborators =
  ip_address_class :: "string \<Rightarrow> ip_class option"
  create_outcome :: "string \<Rightarrow> string \<Rightarrow> int \<Rightarrow> string \<Rightarrow> string \<Rightarrow> error + string"
  start_outcome :: "string \<Rightarrow> json \<Rightarrow> json \<Rightarrow> error + string"
  add_auth_outcome :: "string \<Rightarrow> string \<Rightarrow> string \<Rightarrow> error option"

text \<open>
  Modelled from the spec: \<^verbatim>\<open>tor.create_disk_v3_onion_service\<close> (not in the sources).
  The spec: it creates the onion service bound to the device's directory with an initial
  client authorization for (clientName, publicKey) and returns the address; on a
  control-protocol failure nothing is created on disk.
\<close>

definition create_disk_v3_onion_service ::
  "collaborators \<Rightarrow> directories \<Rightarrow> string \<Rightarrow> string \<Rightarrow> int \<Rightarrow> string \<Rightarrow> string \<Rightarrow>
     (error + string) \<times> directories" where
  "create_disk_v3_onion_service C dirs dir public_key p ip client_name =
     (case create_outcome C dir public_key p ip client_name of
        Inl e \<Rightarrow> (Inl e, dirs)
      | Inr address \<Rightarrow>
          (Inr address,
           AList.update dir
             \<lparr>service_state = address, authorized_clients = [(client_name, public_key)]\<rparr>
             dirs))"

text \<open>
  Modelled from the spec: \<^verbatim>\<open>tor.start_disk_v3_onion_service\<close> (not in the sources).
  The spec: it (re)starts the onion service of the stored directory, bound to the stored
  ip and port, and returns the address; the directories stay as they are.
\<close>

definition start_disk_v3_onion_service ::
  "collaborators \<Rightarrow> directories \<Rightarrow> string \<Rightarrow> json \<Rightarrow> json \<Rightarrow> (error + string) \<times> directories" where
  "start_disk_v3_onion_service C dirs dir p ip = (start_outcome C dir p ip, dirs)"

text \<open>
  Modelled from the spec: \<^verbatim>\<open>tor.add_disk_v3_onion_service_auth\<close> (not in the sources).
  The spec: it writes the client's authorization artifact into the device's directory;
  when the write fails there is no artifact. The program calls it only after it has
  found the directory; called without one, it makes the directory for the artifact.
\<close>

definition add_disk_v3_onion_service_auth ::
  "collaborators \<Rightarrow> directories \<Rightarrow> string \<Rightarrow> string \<Rightarrow> string \<Rightarrow> error option \<times> directories" where
  "add_disk_v3_onion_service_auth C dirs dir public_key client_name =
     (case add_auth_outcome C dir public_key client_name of
        Some e \<Rightarrow> (Some e, dirs)
      | None \<Rightarrow>
          (case map_of dirs dir of
            None \<Rightarrow>
              (None, AList.update dir
                 \<lparr>service_state = [], authorized_clients = [(client_name, public_key)]\<rparr> dirs)
          | Some content \<Rightarrow>
              (None, AList.update dir
                 (content\<lparr>authorized_clients :=
                    AList.update client_name public_key (authorized_clients content)\<rparr>)
                 dirs)))"

text \<open>
  Modelled from the spec: \<^verbatim>\<open>tor.check_existing_onion_service_auth\<close> (not in the
  sources). The spec: whether any client authorization artifact remains for the device;
  the program also calls it on the directory of a device it has just deleted.
\<close>

definition check_existing_onion_service_auth :: "directories \<Rightarrow> string \<Rightarrow> bool" where
  "check_existing_onion_service_auth dirs dir =
     (case map_of dirs dir of
        None \<Rightarrow> False
      | Some content \<Rightarrow> authorized_clients content \<noteq> [])"

section \<open>The proxy\<close>

text \<open>
  The state of a \<^verbatim>\<open>Proxy\<close> object and of what it owns on disk: the dictionary
  \<^verbatim>\<open>self._registered_devices\<close>, the file \<^verbatim>\<open>smarthomedevices.json\<close>, the directories below
  \<^verbatim>\<open>self._onion_service_main_dir\<close>, and whether the Tor process of the configuration
  object runs. \<open>snapshots\<close> records every registry that was written to the file, newest
  first; the program does not read it.
\<close>

record proxy =
  registered_devices :: registry
  registered_devices_file :: "file_text option"
  snapshots :: "registry list"
  onion_service_main_dir :: directories
  tor_running :: bool

definition set_registered_devices :: "proxy \<Rightarrow> proxy" where
  "set_registered_devices st =
     st\<lparr>registered_devices_file := Some (json_dumps (registered_devices st)),
        snapshots := registered_devices st # snapshots st\<rparr>"

text \<open>
  Modelled from the spec: \<^verbatim>\<open>start_tor\<close> and \<^verbatim>\<open>terminate_tor\<close> of the configuration
  object (not in the sources) start and stop the daemon process behind the control
  protocol.
\<close>

definition start_tor :: "proxy \<Rightarrow> proxy" where
  "start_tor st = st\<lparr>tor_running := True\<rparr>"

definition terminate_tor :: "proxy \<Rightarrow> proxy" where
  "terminate_tor st = st\<lparr>tor_running := False\<rparr>"

subsection \<open>The prompts\<close>

text \<open>
  A prompt of \<^verbatim>\<open>common/prompt.py\<close> asks until an answer is acceptable. The operator is
  the list of answers that will be typed at each kind of question (each already checked
  and stripped by \<^verbatim>\<open>questionary\<close>); when the answers run out the operator interrupts,
  which \<^verbatim>\<open>unsafe_ask\<close> raises as \<^verbatim>\<open>KeyboardInterrupt\<close>.
\<close>

record operator =
  device_names :: "string list"
  ip_addresses :: "string list"
  ports :: "int list"
  client_names :: "string list"
  public_keys :: "string list"

fun prompt_device_name :: "registry \<Rightarrow> string list \<Rightarrow> error + string" where
  "prompt_device_name devices [] = Inl KeyboardInterrupt"
| "prompt_device_name devices (device_name # answers) =
     (if device_name \<in> set (map fst devices) then prompt_device_name devices answers
      else Inr device_name)"

fun prompt_client_name :: "registry \<Rightarrow> string option \<Rightarrow> string list \<Rightarrow> error + string" where
  "prompt_client_name devices device_name [] = Inl KeyboardInterrupt"
| "prompt_client_name devices device_name (client_name # answers) =
     (case device_name of
        None \<Rightarrow> Inr client_name
      | Some name \<Rightarrow>
          if name = [] then Inr client_name
          else (case map_of devices name of
            None \<Rightarrow> Inl KeyError
          | Some d \<Rightarrow>
              if client_name \<in> set (map fst (clients d))
              then prompt_client_name devices device_name answers
              else Inr client_name))"

definition ip_address_duplicate :: "registry option \<Rightarrow> json option \<Rightarrow> string \<Rightarrow> bool" where
  "ip_address_duplicate devices p ip =
     (case devices of
        None \<Rightarrow> False
      | Some ds \<Rightarrow>
          list_ex (\<lambda>(name, value).
            (case p of
               Some q \<Rightarrow> py_eq (ip_address value) (JStr ip) \<and> py_eq (port value) q
             | None \<Rightarrow> py_eq (ip_address value) (JStr ip))) ds)"

fun prompt_ip_address :: "registry option \<Rightarrow> json option \<Rightarrow> string list \<Rightarrow> error + string" where
  "prompt_ip_address devices p [] = Inl KeyboardInterrupt"
| "prompt_ip_address devices p (ip # answers) =
     (if ip_address_duplicate devices p ip then prompt_ip_address devices p answers
      else Inr ip)"

definition port_duplicate :: "registry option \<Rightarrow> json option \<Rightarrow> int \<Rightarrow> bool" where
  "port_duplicate devices ip p =
     (case (devices, ip) of
        (Some ds, Some a) \<Rightarrow>
          list_ex (\<lambda>(name, value). py_eq (ip_address value) a \<and> py_eq (port value) (JInt p)) ds
      | _ \<Rightarrow> False)"

fun prompt_port :: "registry option \<Rightarrow> json option \<Rightarrow> int list \<Rightarrow> error + int" where
  "prompt_port devices ip [] = Inl KeyboardInterrupt"
| "prompt_port devices ip (p # answers) =
     (if port_duplicate devices ip p then prompt_port devices ip answers else Inr p)"

fun prompt_public_key :: "string list \<Rightarrow> error + string" where
  "prompt_public_key [] = Inl KeyboardInterrupt"
| "prompt_public_key (public_key # answers) = Inr public_key"

subsection \<open>The operations\<close>

text \<open>
  An operation returns what the Python method returns or the exception it raises,
  together with the state it leaves; after an exception that is the state reached when
  it was raised. Messages written to the log are not modelled.
\<close>

definition add_device :: "collaborators \<Rightarrow> operator \<Rightarrow> proxy \<Rightarrow> (error + unit) \<times> proxy" where
  "add_device C U st =
     (case prompt_device_name (registered_devices st) (device_names U) of
        Inl e \<Rightarrow> (Inl e, st)
      | Inr device_name \<Rightarrow>
     (case prompt_ip_address None None (ip_addresses U) of
        Inl e \<Rightarrow> (Inl e, st)
      | Inr ip \<Rightarrow>
     (case ip_address_class C ip of
        None \<Rightarrow> (Inl ValueError, st)
      | Some IPv6Address \<Rightarrow> (Inr (), st)
      | Some IPv4Address \<Rightarrow>
     (case prompt_port (Some (registered_devices st)) (Some (JStr ip)) (ports U) of
        Inl e \<Rightarrow> (Inl e, st)
      | Inr p \<Rightarrow>
     (case prompt_client_name (registered_devices st) None (client_names U) of
        Inl e \<Rightarrow> (Inl e, st)
      | Inr client_name \<Rightarrow>
     (case prompt_public_key (public_keys U) of
        Inl e \<Rightarrow> (Inl e, st)
      | Inr public_key \<Rightarrow>
     (let st1 = start_tor st in
      case create_disk_v3_onion_service C (onion_service_main_dir st1) device_name
             public_key p ip client_name of
        (Inl e, dirs) \<Rightarrow> (Inl e, st1\<lparr>onion_service_main_dir := dirs\<rparr>)
      | (Inr onion_service_address, dirs) \<Rightarrow>
          (let st2 = terminate_tor (st1\<lparr>onion_service_main_dir := dirs\<rparr>);
               new_device = \<lparr>ip_address = JStr ip, port = JInt p,
                              onion_address = JStr onion_service_address,
                              clients = [(client_name, JStr public_key)]\<rparr>
           in (Inr (), set_registered_devices
                 (st2\<lparr>registered_devices :=
                    AList.update device_name new_device (registered_devices st2)\<rparr>))))))))))"

definition delete_device :: "proxy \<Rightarrow> string \<Rightarrow> string \<Rightarrow> (error + unit) \<times> proxy" where
  "delete_device st onion_service_dir device_name =
     (case rmtree (onion_service_main_dir st) onion_service_dir of
        Inl e \<Rightarrow> (Inl e, st)
      | Inr dirs \<Rightarrow>
          (let st1 = st\<lparr>onion_service_main_dir := dirs\<rparr> in
           if device_name \<in> set (map fst (registered_devices st1))
           then (Inr (), set_registered_devices
                   (st1\<lparr>registered_devices := AList.delete device_name (registered_devices st1)\<rparr>))
           else (Inl KeyError, st1)))"

text \<open>
  The branches \<^verbatim>\<open>Change IP address\<close>, \<^verbatim>\<open>Change webinterface port\<close> and \<^verbatim>\<open>Rename device\<close>
  of the menu loop of \<^verbatim>\<open>_manage_registered_devices\<close>, one pass each.
\<close>

definition change_ip_address ::
  "collaborators \<Rightarrow> operator \<Rightarrow> proxy \<Rightarrow> string \<Rightarrow> (error + unit) \<times> proxy" where
  "change_ip_address C U st device_name =
     (case map_of (registered_devices st) device_name of
        None \<Rightarrow> (Inl KeyError, st)
      | Some d \<Rightarrow>
     (case prompt_ip_address (Some (registered_devices st)) (Some (port d)) (ip_addresses U) of
        Inl e \<Rightarrow> (Inl e, st)
      | Inr ip \<Rightarrow>
     (case ip_address_class C ip of
        None \<Rightarrow> (Inl ValueError, st)
      | Some IPv6Address \<Rightarrow> (Inr (), st)
      | Some IPv4Address \<Rightarrow>
          (Inr (), set_registered_devices
             (st\<lparr>registered_devices :=
                AList.update device_name (d\<lparr>ip_address := JStr ip\<rparr>) (registered_devices st)\<rparr>)))))"

definition change_webinterface_port ::
  "operator \<Rightarrow> proxy \<Rightarrow> string \<Rightarrow> (error + unit) \<times> proxy" where
  "change_webinterface_port U st device_name =
     (case map_of (registered_devices st) device_name of
        None \<Rightarrow> (Inl KeyError, st)
      | Some d \<Rightarrow>
     (case prompt_port (Some (registered_devices st)) (Some (ip_address d)) (ports U) of
        Inl e \<Rightarrow> (Inl e, st)
      | Inr p \<Rightarrow>
          (Inr (), set_registered_devices
             (st\<lparr>registered_devices :=
                AList.update device_name (d\<lparr>port := JInt p\<rparr>) (registered_devices st)\<rparr>))))"

text \<open>
  \<^verbatim>\<open>d[new] = d.pop(old)\<close> evaluates the right-hand side first: \<^verbatim>\<open>KeyError\<close> without the
  old key, else the value goes under the new key (at the end, the key being new).
\<close>

definition rename_device ::
  "operator \<Rightarrow> proxy \<Rightarrow> string \<Rightarrow> string \<Rightarrow> (error + string) \<times> proxy" where
  "rename_device U st onion_service_dir device_name =
     (case prompt_device_name (registered_devices st) (device_names U) of
        Inl e \<Rightarrow> (Inl e, st)
      | Inr new_device_name \<Rightarrow>
     (case replace_dir (onion_service_main_dir st) onion_service_dir new_device_name of
        Inl e \<Rightarrow> (Inl e, st)
      | Inr dirs \<Rightarrow>
          (let st1 = st\<lparr>onion_service_main_dir := dirs\<rparr> in
           case map_of (registered_devices st1) device_name of
             None \<Rightarrow> (Inl KeyError, st1)
           | Some d \<Rightarrow>
               (Inr new_device_name, set_registered_devices
                  (st1\<lparr>registered_devices :=
                     AList.update new_device_name d
                       (AList.delete device_name (registered_devices st1))\<rparr>)))))"

text \<open>The branch \<^verbatim>\<open>Rename client\<close> of \<^verbatim>\<open>_manage_registered_clients\<close>.\<close>

definition rename_client ::
  "operator \<Rightarrow> proxy \<Rightarrow> string \<Rightarrow> string \<Rightarrow> string \<Rightarrow> (error + string) \<times> proxy" where
  "rename_client U st onion_service_dir device_name client_name =
     (case prompt_client_name (registered_devices st) (Some device_name) (client_names U) of
        Inl e \<Rightarrow> (Inl e, st)
      | Inr new_client_name \<Rightarrow>
     (case replace_file (onion_service_main_dir st) onion_service_dir client_name
             new_client_name of
        Inl e \<Rightarrow> (Inl e, st)
      | Inr dirs \<Rightarrow>
          (let st1 = st\<lparr>onion_service_main_dir := dirs\<rparr> in
           case map_of (registered_devices st1) device_name of
             None \<Rightarrow> (Inl KeyError, st1)
           | Some d \<Rightarrow>
               (case map_of (clients d) client_name of
                  None \<Rightarrow> (Inl KeyError, st1)
                | Some key \<Rightarrow>
                    (Inr new_client_name, set_registered_devices
                       (st1\<lparr>registered_devices :=
                          AList.update device_name
                            (d\<lparr>clients := AList.update new_client_name key
                                             (AList.delete client_name (clients d))\<rparr>)
                            (registered_devices st1)\<rparr>))))))"

definition add_client ::
  "collaborators \<Rightarrow> proxy \<Rightarrow> string \<Rightarrow> string \<Rightarrow> string \<Rightarrow> (error + unit) \<times> proxy" where
  "add_client C st device_name client_name public_key =
     (if device_name \<notin> set (map fst (onion_service_main_dir st))
      then (Inl FileNotFoundError, st)
      else
        (case add_disk_v3_onion_service_auth C (onion_service_main_dir st) device_name
                public_key client_name of
           (Some e, dirs) \<Rightarrow> (Inl e, st\<lparr>onion_service_main_dir := dirs\<rparr>)
         | (None, dirs) \<Rightarrow>
             (let st1 = st\<lparr>onion_service_main_dir := dirs\<rparr> in
              case map_of (registered_devices st1) device_name of
                None \<Rightarrow> (Inl KeyError, st1)
              | Some d \<Rightarrow>
                  (Inr (), set_registered_devices
                     (st1\<lparr>registered_devices :=
                        AList.update device_name
                          (d\<lparr>clients := AList.update client_name (JStr public_key) (clients d)\<rparr>)
                          (registered_devices st1)\<rparr>)))))"

definition delete_client ::
  "proxy \<Rightarrow> string \<Rightarrow> string \<Rightarrow> string \<Rightarrow> (error + unit) \<times> proxy" where
  "delete_client st onion_service_dir device_name client_name =
     (case unlink (onion_service_main_dir st) onion_service_dir client_name of
        Inl e \<Rightarrow> (Inl e, st)
      | Inr dirs \<Rightarrow>
          (let st1 = st\<lparr>onion_service_main_dir := dirs\<rparr> in
           case map_of (registered_devices st1) device_name of
             None \<Rightarrow> (Inl KeyError, st1)
           | Some d \<Rightarrow>
               if client_name \<notin> set (map fst (clients d)) then (Inl KeyError, st1)
               else
                 (let st2 = set_registered_devices
                       (st1\<lparr>registered_devices :=
                          AList.update device_name
                            (d\<lparr>clients := AList.delete client_name (clients d)\<rparr>)
                            (registered_devices st1)\<rparr>)
                  in if \<not> check_existing_onion_service_auth (onion_service_main_dir st2)
                            onion_service_dir
                     then delete_device st2 onion_service_dir device_name
                     else (Inr (), st2))))"

text \<open>
  \<^verbatim>\<open>start_proxy\<close>: the loop over the registered devices, in the order of the dictionary,
  counts the services whose address is the stored one. An exception of the control
  functions ends the loop. The result is the counter; with a counter of one or more
  the method then waits for the Tor process, which is not modelled.
\<close>

fun start_services ::
  "collaborators \<Rightarrow> registry \<Rightarrow> directories \<Rightarrow> nat \<Rightarrow> (error + nat) \<times> directories" where
  "start_services C [] dirs service_counter = (Inr service_counter, dirs)"
| "start_services C ((device, value) # rest) dirs service_counter =
     (case start_disk_v3_onion_service C dirs device (port value) (ip_address value) of
        (Inl e, dirs') \<Rightarrow> (Inl e, dirs')
      | (Inr onion_service_address, dirs') \<Rightarrow>
          if \<not> py_eq (JStr onion_service_address) (onion_address value)
          then start_services C rest dirs' service_counter
          else start_services C rest dirs' (service_counter + 1))"

definition start_proxy :: "collaborators \<Rightarrow> proxy \<Rightarrow> (error + nat) \<times> proxy" where
  "start_proxy C st =
     (let st1 = start_tor st in
      case start_services C (registered_devices st1) (onion_service_main_dir st1) 0 of
        (r, dirs) \<Rightarrow> (r, st1\<lparr>onion_service_main_dir := dirs\<rparr>))"

subsection \<open>The menus\<close>

text \<open>
  One choice in the menus of \<^verbatim>\<open>manage_devices\<close>, \<^verbatim>\<open>_manage_registered_devices\<close>,
  \<^verbatim>\<open>_manage_clients\<close> and \<^verbatim>\<open>_manage_registered_clients\<close>, confirmed where the menu asks
  for it. The menus compute \<^verbatim>\<open>onion_service_dir\<close> from the name of the device.
\<close>

datatype operation =
    AddDevice
  | DeleteDevice string
  | ChangeIpAddress string
  | ChangeWebinterfacePort string
  | RenameDevice string
  | AddClient string
  | RenameClient string string
  | DeleteClient string string

definition manage :: "collaborators \<Rightarrow> operator \<Rightarrow> proxy \<Rightarrow> operation \<Rightarrow> (error + unit) \<times> proxy" where
  "manage C U st choice =
     (case choice of
        AddDevice \<Rightarrow> add_device C U st
      | DeleteDevice device_name \<Rightarrow> delete_device st device_name device_name
      | ChangeIpAddress device_name \<Rightarrow> change_ip_address C U st device_name
      | ChangeWebinterfacePort device_name \<Rightarrow> change_webinterface_port U st device_name
      | RenameDevice device_name \<Rightarrow>
          (case rename_device U st device_name device_name of
             (Inl e, st') \<Rightarrow> (Inl e, st')
           | (Inr new_device_name, st') \<Rightarrow> (Inr (), st'))
      | AddClient device_name \<Rightarrow>
          (case prompt_client_name (registered_devices st) (Some device_name) (client_names U) of
             Inl e \<Rightarrow> (Inl e, st)
           | Inr client_name \<Rightarrow>
               (case prompt_public_key (public_keys U) of
                  Inl e \<Rightarrow> (Inl e, st)
                | Inr public_key \<Rightarrow> add_client C st device_name client_name public_key))
      | RenameClient device_name client_name \<Rightarrow>
          (case rename_client U st device_name device_name client_name of
             (Inl e, st') \<Rightarrow> (Inl e, st')
           | (Inr new_client_name, st') \<Rightarrow> (Inr (), st'))
      | DeleteClient device_name client_name \<Rightarrow>
          delete_client st device_name device_name client_name)"

section \<open>Notions of the claims\<close>

text \<open>
  For the statements about \<^verbatim>\<open>start_proxy\<close>: a service counts as started when the
  control client returns the stored address for it; \<open>start_returns\<close> says that the call
  for a device returns at all.
\<close>

definition started :: "collaborators \<Rightarrow> string \<times> device \<Rightarrow> bool" where
  "started C entry =
     (case entry of (device, value) \<Rightarrow>
        (case start_outcome C device (port value) (ip_address value) of
           Inl e \<Rightarrow> False
         | Inr address \<Rightarrow> onion_address value = JStr address))"

definition start_returns :: "collaborators \<Rightarrow> string \<times> device \<Rightarrow> bool" where
  "start_returns C entry =
     (case entry of (device, value) \<Rightarrow>
        (case start_outcome C device (port value) (ip_address value) of
           Inl e \<Rightarrow> False
         | Inr address \<Rightarrow> True))"

text \<open>
  The invariant of the spec: every device of a registry has a client. The registry and
  the directories are in step when the device names are distinct (they are the keys of
  a dictionary), every device has a client, and every device has its directory, whose
  authorization files are those of the device's clients.
\<close>

definition devices_have_clients :: "registry \<Rightarrow> bool" where
  "devices_have_clients devices = list_all (\<lambda>(name, d). clients d \<noteq> []) devices"

definition synced :: "directories \<Rightarrow> string \<Rightarrow> device \<Rightarrow> bool" where
  "synced dirs name d =
     (clients d \<noteq> [] \<and>
      (case map_of dirs name of
         None \<Rightarrow> False
       | Some content \<Rightarrow>
           set (map fst (authorized_clients content)) = set (map fst (clients d))))"

definition in_step :: "proxy \<Rightarrow> bool" where
  "in_step st =
     (distinct (map fst (registered_devices st)) \<and>
      list_all (\<lambda>(name, d). synced (onion_service_main_dir st) name d) (registered_devices st))"

section \<open>Examples\<close>

text \<open>The device of the spec's cascade example, as the file holds it and as the program holds it.\<close>

definition example_entry :: json where
  "example_entry =
     JDict [(''ip_address'', JStr ''10.0.0.5''), (''port'', JInt 8080),
            (''onion_address'', JStr ''abcd...onion''), (''clients'', JDict [(''c1'', JStr ''KEY1'')])]"

definition example_device :: device where
  "example_device =
     \<lparr>ip_address = JStr ''10.0.0.5'', port = JInt 8080, onion_address = JStr ''abcd...onion'',
      clients = [(''c1'', JStr ''KEY1'')]\<rparr>"

definition empty_proxy :: proxy where
  "empty_proxy =
     \<lparr>registered_devices = [], registered_devices_file = None, snapshots = [],
      onion_service_main_dir = [], tor_running = False\<rparr>"

text \<open>Two devices with the same address, port and onion address, one of them without a client.\<close>

definition clashing_entries :: "json pydict" where
  "clashing_entries =
     [(''A'', JDict [(''ip_address'', JStr ''10.0.0.5''), (''port'', JInt 8080),
            (''onion_address'', JStr ''abcd...onion''), (''clients'', JDict [(''c1'', JStr ''KEY1'')])]),
      (''B'', JDict [(''ip_address'', JStr ''10.0.0.5''), (''port'', JInt 8080),
            (''onion_address'', JStr ''abcd...onion''), (''clients'', JDict [])])]"

text \<open>
  The state of the spec's cascade example: device A with its one client, the file and
  the directory in step with the registry.
\<close>

definition cascade_example :: proxy where
  "cascade_example =
     \<lparr>registered_devices = [(''A'', example_device)],
      registered_devices_file = Some (json_dumps [(''A'', example_device)]),
      snapshots = [],
      onion_service_main_dir =
        [(''A'', \<lparr>service_state = ''abcd...onion'', authorized_clients = [(''c1'', ''KEY1'')]\<rparr>)],
      tor_running = False\<rparr>"

text \<open>
  The operator of the spec's creation example, a classification of addresses by the
  colon, and two control clients: one whose calls all succeed, one whose calls all fail.
\<close>

definition example_operator :: operator where
  "example_operator =
     \<lparr>device_names = [''B''], ip_addresses = [''192.168.1.10''], ports = [9000],
      client_names = [''c1''], public_keys = [''KEY2'']\<rparr>"

definition example_ip_class :: "string \<Rightarrow> ip_class option" where
  "example_ip_class ip = (if CHR '':'' \<in> set ip then Some IPv6Address else Some IPv4Address)"

definition working_tor :: collaborators where
  "working_tor =
     \<lparr>ip_address_class = example_ip_class,
      create_outcome = (\<lambda>dir public_key p ip client_name. Inr ''xyz...onion''),
      start_outcome = (\<lambda>dir p ip. Inr ''abcd...onion''),
      add_auth_outcome = (\<lambda>dir public_key client_name. None)\<rparr>"

definition failing_tor :: collaborators where
  "failing_tor =
     \<lparr>ip_address_class = example_ip_class,
      create_outcome = (\<lambda>dir public_key p ip client_name. Inl ControlError),
      start_outcome = (\<lambda>dir p ip. Inl ControlError),
      add_auth_outcome = (\<lambda>dir public_key client_name. Some ControlError)\<rparr>"

text \<open>Two registered devices, and a directory B that belongs to no device.\<close>

definition other_device :: device where
  "other_device =
     \<lparr>ip_address = JStr ''10.0.0.7'', port = JInt 80, onion_address = JStr ''efgh...onion'',
      clients = [(''c2'', JStr ''KEY3'')]\<rparr>"

definition two_devices :: proxy where
  "two_devices =
     \<lparr>registered_devices = [(''A'', example_device), (''C'', other_device)],
      registered_devices_file =
        Some (json_dumps [(''A'', example_device), (''C'', other_device)]),
      snapshots = [],
      onion_service_main_dir =
        [(''A'', \<lparr>service_state = ''abcd...onion'', authorized_clients = [(''c1'', ''KEY1'')]\<rparr>),
         (''C'', \<lparr>service_state = ''efgh...onion'', authorized_clients = [(''c2'', ''KEY3'')]\<rparr>),
         (''B'', \<lparr>service_state = ''ijkl...onion'', authorized_clients = []\<rparr>)],
      tor_running = False\<rparr>"

section \<open>Loading and saving the registry\<close>

lemma validate_clients_Inr:
  "(validate_clients V n cs = Inr u) \<longleftrightarrow> list_all (\<lambda>(c, k). validate_base32_key V k) cs"
  by (induction cs) (auto split: if_splits)

lemma py_eq_keys:
  "(length ks = length kvs \<and>
    list_all (\<lambda>(x, y). py_eq x y) (zip (map JStr ks) (map (\<lambda>(k, v). JStr k) kvs)))
   \<longleftrightarrow> map fst kvs = ks"
proof (induction ks arbitrary: kvs)
  case Nil
  then show ?case by auto
next
  case (Cons k ks)
  show ?case
  proof (cases kvs)
    case Nil
    then show ?thesis by simp
  next
    case (Cons kv kvs')
    obtain k' v' where kv: "kv = (k', v')" by (cases kv)
    show ?thesis using Cons.IH [of kvs'] Cons kv by auto
  qed
qed

lemma keys_match_dict:
  "py_eq (JList (map JStr ks)) (JList (map (\<lambda>(k, v). JStr k) kvs)) \<longleftrightarrow> map fst kvs = ks"
  using py_eq_keys [of ks kvs] by simp

lemma well_formed_entry_shape:
  "well_formed_entry V v \<longleftrightarrow>
     (\<exists>ip p oa cs. v = JDict [(''ip_address'', ip), (''port'', p), (''onion_address'', oa), (''clients'', JDict cs)]
        \<and> validate_ip_address V ip \<and> validate_port V p \<and>
               validate_onion_v3_address V oa \<and>
               list_all (\<lambda>(client_name, public_key). validate_base32_key V public_key) cs)"
proof
  assume wf: "well_formed_entry V v"
  then obtain kvs where v: "v = JDict kvs"
    by (cases v) (auto simp: well_formed_entry_def)
  from wf v have ks: "map fst kvs = values_list"
    by (simp add: well_formed_entry_def)
  then obtain ip p oa cl where kvs:
    "kvs = [(''ip_address'', ip), (''port'', p), (''onion_address'', oa), (''clients'', cl)]"
    by (auto simp: values_list_def)
  from wf v kvs obtain cs where "cl = JDict cs"
    by (cases cl) (auto simp: well_formed_entry_def values_list_def)
  with wf v kvs show "\<exists>ip p oa cs. v = JDict [(''ip_address'', ip), (''port'', p), (''onion_address'', oa), (''clients'', JDict cs)]
        \<and> validate_ip_address V ip \<and> validate_port V p \<and>
               validate_onion_v3_address V oa \<and>
               list_all (\<lambda>(client_name, public_key). validate_base32_key V public_key) cs"
    by (simp add: well_formed_entry_def values_list_def)
next
  assume "\<exists>ip p oa cs. v = JDict [(''ip_address'', ip), (''port'', p), (''onion_address'', oa), (''clients'', JDict cs)]
        \<and> validate_ip_address V ip \<and> validate_port V p \<and>
               validate_onion_v3_address V oa \<and>
               list_all (\<lambda>(client_name, public_key). validate_base32_key V public_key) cs"
  then show "well_formed_entry V v"
    by (auto simp: well_formed_entry_def values_list_def)
qed

lemma validate_device_well_formed:
  assumes "well_formed_entry V v"
  shows "\<exists>d. validate_device V n v = Inr d \<and> device_json d = v"
proof -
  from assms obtain ip p oa cs where
    v: "v = JDict [(''ip_address'', ip), (''port'', p), (''onion_address'', oa), (''clients'', JDict cs)]"
    and ok: "validate_ip_address V ip" "validate_port V p" "validate_onion_v3_address V oa"
    "list_all (\<lambda>(client_name, public_key). validate_base32_key V public_key) cs"
    unfolding well_formed_entry_shape by blast
  from ok(4) have "validate_clients V n cs = Inr ()" by (simp add: validate_clients_Inr)
  with v ok show ?thesis
    by (simp add: validate_device_def values_list_def device_json_def)
qed

lemma validate_device_Inr_D:
  assumes "validate_device V n v = Inr d"
  shows "well_formed_entry V v \<and> device_json d = v"
proof -
  from assms obtain ks where u: "unpack v = Inr ks"
    by (auto simp: validate_device_def split: sum.splits)
  from assms u have eq: "py_eq (JList (map JStr values_list)) (JList ks)"
    by (auto simp: validate_device_def split: sum.splits if_splits)
  from assms u eq obtain ip where g: "getitem v ''ip_address'' = Inr ip"
    by (auto simp: validate_device_def split: sum.splits if_splits)
  then obtain kvs where v: "v = JDict kvs" by (cases v) auto
  from u v have "ks = map (\<lambda>(k, v). JStr k) kvs" by auto
  with eq have "map fst kvs = values_list" using keys_match_dict [of values_list kvs] by simp
  then obtain ip p oa cl where kvs:
    "kvs = [(''ip_address'', ip), (''port'', p), (''onion_address'', oa), (''clients'', cl)]"
    by (auto simp: values_list_def)
  from assms v kvs obtain cs where cl: "cl = JDict cs"
    by (cases cl) (auto simp: validate_device_def values_list_def split: sum.splits if_splits)
  from assms v kvs cl show ?thesis
    by (auto simp: validate_device_def values_list_def device_json_def well_formed_entry_def
          validate_clients_Inr split: sum.splits if_splits)
qed

lemma validate_device_Inr:
  "validate_device V n v = Inr d \<longleftrightarrow> well_formed_entry V v \<and> device_json d = v"
proof
  assume "validate_device V n v = Inr d"
  then show "well_formed_entry V v \<and> device_json d = v" by (rule validate_device_Inr_D)
next
  assume a: "well_formed_entry V v \<and> device_json d = v"
  then obtain d' where d': "validate_device V n v = Inr d'" "device_json d' = v"
    using validate_device_well_formed by blast
  with a have "device_json d' = device_json d" by simp
  then have "d' = d" by (cases d, cases d') (simp add: device_json_def)
  with d' show "validate_device V n v = Inr d" by simp
qed

lemma validate_devices_Inr_D:
  "validate_devices V entries = Inr devices \<Longrightarrow>
     list_all (\<lambda>(name, value). well_formed_entry V value) entries \<and>
     map (\<lambda>(name, d). (name, device_json d)) devices = entries"
proof (induction entries arbitrary: devices)
  case Nil
  then show ?case by auto
next
  case (Cons entry entries)
  obtain n v where entry: "entry = (n, v)" by (cases entry)
  from Cons.prems entry obtain d ds where
    d: "validate_device V n v = Inr d" and ds: "validate_devices V entries = Inr ds"
    and devices: "devices = (n, d) # ds"
    by (auto split: sum.splits)
  from d have "well_formed_entry V v \<and> device_json d = v" by (rule validate_device_Inr_D)
  with Cons.IH [OF ds] entry devices show ?case by simp
qed

lemma validate_devices_well_formed:
  "list_all (\<lambda>(name, value). well_formed_entry V value) entries \<Longrightarrow>
     \<exists>devices. validate_devices V entries = Inr devices"
proof (induction entries)
  case Nil
  then show ?case by simp
next
  case (Cons entry entries)
  obtain n v where entry: "entry = (n, v)" by (cases entry)
  with Cons.prems have "well_formed_entry V v" by simp
  then obtain d where "validate_device V n v = Inr d"
    using validate_device_well_formed by blast
  moreover from Cons obtain ds where "validate_devices V entries = Inr ds" by auto
  ultimately show ?case using entry by simp
qed

lemma validate_clients_Inl:
  "validate_clients V n cs = Inl e \<Longrightarrow>
     \<exists>c. e = InvalidDevice n (PublicKey c) \<and>
       list_ex (\<lambda>(c', public_key). c' = c \<and> \<not> validate_base32_key V public_key) cs"
  by (induction cs) (auto split: if_splits)

lemma validate_device_Inl:
  assumes "validate_device V n v = Inl e" and "entry_is_object v"
  shows "\<exists>what. e = InvalidDevice n what \<and> violates V what v"
proof -
  from assms(2) obtain kvs where v: "v = JDict kvs"
    by (cases v) (auto simp: entry_is_object_def)
  show ?thesis
  proof (cases "map fst kvs = values_list")
    case False
    with assms v show ?thesis
      using keys_match_dict [of values_list kvs] by (auto simp: validate_device_def)
  next
    case True
    then obtain ip p oa cl where kvs:
      "kvs = [(''ip_address'', ip), (''port'', p), (''onion_address'', oa), (''clients'', cl)]"
      by (auto simp: values_list_def)
    from assms(2) v kvs obtain cs where cl: "cl = JDict cs"
      by (cases cl) (auto simp: entry_is_object_def)
    have m: "py_eq (JList (map JStr values_list)) (JList (map (\<lambda>(k, v). JStr k) kvs))"
      using True keys_match_dict [of values_list kvs] by simp
    from assms(1) show ?thesis
      using m
      unfolding v validate_device_def
      by (auto simp: kvs cl split: if_splits sum.splits dest!: validate_clients_Inl)
  qed
qed

lemma validate_devices_Inl:
  "validate_devices V entries = Inl e \<Longrightarrow>
   list_all (\<lambda>(name, value). entry_is_object value) entries \<Longrightarrow>
   \<exists>name value what. e = InvalidDevice name what \<and> (name, value) \<in> set entries \<and>
      violates V what value"
proof (induction entries)
  case Nil
  then show ?case by simp
next
  case (Cons entry entries)
  obtain n v where entry: "entry = (n, v)" by (cases entry)
  show ?case
  proof (cases "validate_device V n v")
    case (Inl e')
    with Cons.prems entry have "e' = e" by simp
    with Inl Cons.prems entry validate_device_Inl [of V n v e] show ?thesis by auto
  next
    case (Inr d)
    with Cons.prems entry have "validate_devices V entries = Inl e"
      by (auto split: sum.splits)
    with Cons.IH Cons.prems show ?thesis by auto
  qed
qed

lemma get_registered_devices_dict:
  "get_registered_devices V (Some (Text (JDict entries))) = validate_devices V entries"
  by (simp add: get_registered_devices_def)

lemma json_dumps_parsed:
  "map (\<lambda>(name, d). (name, device_json d)) devices = entries \<Longrightarrow>
     json_dumps devices = Text (JDict entries)"
  by (simp add: json_dumps_def)

lemma get_registered_devices_Inr_D:
  assumes "get_registered_devices V (Some x) = Inr devices"
  shows "\<exists>entries. x = Text (JDict entries) \<and> validate_devices V entries = Inr devices"
proof -
  from assms obtain doc where x: "x = Text doc"
    by (cases x) (auto simp: get_registered_devices_def)
  from assms x obtain entries where "doc = JDict entries"
    by (cases doc) (auto simp: get_registered_devices_def)
  with assms x show ?thesis by (simp add: get_registered_devices_def)
qed

lemma example_simps:
  "validate_ip_address example_validation (JStr ''10.0.0.5'')"
  "validate_port example_validation (JInt 8080)"
  "\<not> validate_port example_validation (JInt 0)"
  "validate_onion_v3_address example_validation (JStr ''abcd...onion'')"
  "validate_base32_key example_validation (JStr ''KEY1'')"
  by (simp_all add: example_validation_def)

text \<open>
  Claim C5, as the code has it. Without the file the loader returns the empty registry.
  A file that holds a JSON object is accepted exactly when every entry is well formed: a
  dict with exactly the keys \<^verbatim>\<open>ip_address\<close>, \<^verbatim>\<open>port\<close>, \<^verbatim>\<open>onion_address\<close>, \<^verbatim>\<open>clients\<close> in
  this order (the order of the keys counts), values that pass the validation functions,
  and clients that are a dict of valid keys. What it returns is the parsed content,
  nothing repaired. When it rejects a file whose entries are dicts (with a dict of
  clients where they have one), the error names a device of the file and the part of
  its entry that is wrong, for a public key the client too.
\<close>

theorem load_accepts_the_well_formed_entries:
  "get_registered_devices V None = Inr [] \<and>
   ((\<exists>devices. get_registered_devices V (Some (Text (JDict entries))) = Inr devices) \<longleftrightarrow>
      list_all (\<lambda>(name, value). well_formed_entry V value) entries) \<and>
   (\<forall>devices. get_registered_devices V (Some (Text (JDict entries))) = Inr devices \<longrightarrow>
      json_dumps devices = Text (JDict entries)) \<and>
   (\<forall>e. get_registered_devices V (Some (Text (JDict entries))) = Inl e \<longrightarrow>
      list_all (\<lambda>(name, value). entry_is_object value) entries \<longrightarrow>
      (\<exists>name value what. e = InvalidDevice name what \<and> (name, value) \<in> set entries \<and>
         violates V what value))"
proof (intro conjI allI impI)
  show "get_registered_devices V None = Inr []"
    by (simp add: get_registered_devices_def)
next
  show "(\<exists>devices. get_registered_devices V (Some (Text (JDict entries))) = Inr devices) \<longleftrightarrow>
      list_all (\<lambda>(name, value). well_formed_entry V value) entries"
    unfolding get_registered_devices_dict
    using validate_devices_Inr_D validate_devices_well_formed by blast
next
  fix devices
  assume "get_registered_devices V (Some (Text (JDict entries))) = Inr devices"
  then have "validate_devices V entries = Inr devices"
    by (simp add: get_registered_devices_dict)
  then show "json_dumps devices = Text (JDict entries)"
    using validate_devices_Inr_D json_dumps_parsed by blast
next
  fix e
  assume "get_registered_devices V (Some (Text (JDict entries))) = Inl e"
    and "list_all (\<lambda>(name, value). entry_is_object value) entries"
  then show "\<exists>name value what. e = InvalidDevice name what \<and> (name, value) \<in> set entries \<and>
         violates V what value"
    unfolding get_registered_devices_dict by (rule validate_devices_Inl)
qed

theorem load_accepts_the_well_formed_entries_witness:
  "get_registered_devices example_validation (Some (Text (JDict [(''A'', example_entry)])))
     = Inr [(''A'', example_device)] \<and>
   list_all (\<lambda>(name, value). well_formed_entry example_validation value) [(''A'', example_entry)] \<and>
   json_dumps [(''A'', example_device)] = Text (JDict [(''A'', example_entry)]) \<and>
   list_all (\<lambda>(name, value). entry_is_object value)
     [(''A'', JDict [(''ip_address'', JStr ''10.0.0.5''), (''port'', JInt 0),
            (''onion_address'', JStr ''abcd...onion''), (''clients'', JDict [])])] \<and>
   get_registered_devices example_validation (Some (Text (JDict
     [(''A'', JDict [(''ip_address'', JStr ''10.0.0.5''), (''port'', JInt 0),
            (''onion_address'', JStr ''abcd...onion''), (''clients'', JDict [])])])))
     = Inl (InvalidDevice ''A'' Port) \<and>
   violates example_validation Port
     (JDict [(''ip_address'', JStr ''10.0.0.5''), (''port'', JInt 0),
            (''onion_address'', JStr ''abcd...onion''), (''clients'', JDict [])])"
  using load_accepts_the_well_formed_entries [of example_validation "[(''A'', example_entry)]"]
    load_accepts_the_well_formed_entries [of example_validation
      "[(''A'', JDict [(''ip_address'', JStr ''10.0.0.5''), (''port'', JInt 0),
            (''onion_address'', JStr ''abcd...onion''), (''clients'', JDict [])])]"]
  by (simp add: get_registered_devices_def validate_device_def values_list_def example_simps
        example_entry_def example_device_def well_formed_entry_def entry_is_object_def
        json_dumps_def device_json_def)

text \<open>
  Claim C5 as it is written fails on the order of the fields: an entry with exactly the
  four fields and valid values, \<^verbatim>\<open>port\<close> written before \<^verbatim>\<open>ip_address\<close>, is rejected.
\<close>

theorem load_rejects_reordered_fields:
  "set (map fst [(''port'', JInt 8080), (''ip_address'', JStr ''10.0.0.5''),
                 (''onion_address'', JStr ''abcd...onion''),
                 (''clients'', JDict [(''c1'', JStr ''KEY1'')])]) = set values_list \<and>
   validate_ip_address example_validation (JStr ''10.0.0.5'') \<and>
   validate_port example_validation (JInt 8080) \<and>
   validate_onion_v3_address example_validation (JStr ''abcd...onion'') \<and>
   validate_base32_key example_validation (JStr ''KEY1'') \<and>
   get_registered_devices example_validation
     (Some (Text (JDict [(''A'',
        JDict [(''port'', JInt 8080), (''ip_address'', JStr ''10.0.0.5''),
               (''onion_address'', JStr ''abcd...onion''),
               (''clients'', JDict [(''c1'', JStr ''KEY1'')])])])))
     = Inl (InvalidDevice ''A'' Structure)"
  by (auto simp add: get_registered_devices_def validate_device_def values_list_def example_simps)

text \<open>
  Claim C9: for every file that the loader accepts, saving the loaded registry writes
  the content of that file again.
\<close>

theorem save_after_load_restores_the_file:
  "get_registered_devices V (Some x) = Inr devices \<Longrightarrow>
     registered_devices_file (set_registered_devices (st\<lparr>registered_devices := devices\<rparr>))
       = Some x"
proof -
  assume "get_registered_devices V (Some x) = Inr devices"
  then obtain entries where x: "x = Text (JDict entries)"
    and v: "validate_devices V entries = Inr devices"
    using get_registered_devices_Inr_D by blast
  from v have "json_dumps devices = Text (JDict entries)"
    using validate_devices_Inr_D json_dumps_parsed by blast
  with x show ?thesis by (simp add: set_registered_devices_def)
qed

theorem save_after_load_restores_the_file_witness:
  "get_registered_devices example_validation (Some (Text (JDict [(''A'', example_entry)])))
     = Inr [(''A'', example_device)] \<and>
   registered_devices_file
     (set_registered_devices (empty_proxy\<lparr>registered_devices := [(''A'', example_device)]\<rparr>))
     = Some (Text (JDict [(''A'', example_entry)]))"
proof -
  have h: "get_registered_devices example_validation (Some (Text (JDict [(''A'', example_entry)])))
     = Inr [(''A'', example_device)]"
    by (simp add: get_registered_devices_def validate_device_def values_list_def example_simps
        example_entry_def example_device_def)
  show ?thesis
    using h save_after_load_restores_the_file [OF h, of empty_proxy] by simp
qed

text \<open>
  Claim C10: the loader checks every entry alone. A file whose entries are all well
  formed is accepted and returned as parsed, whatever holds between the entries: two
  devices may share the address and port or the onion address, and a device may have no
  client.
\<close>

theorem load_checks_each_entry_alone:
  "list_all (\<lambda>(name, value). well_formed_entry V value) entries \<Longrightarrow>
     \<exists>devices. get_registered_devices V (Some (Text (JDict entries))) = Inr devices \<and>
       json_dumps devices = Text (JDict entries)"
proof -
  assume "list_all (\<lambda>(name, value). well_formed_entry V value) entries"
  then obtain devices where v: "validate_devices V entries = Inr devices"
    using validate_devices_well_formed by blast
  then have "json_dumps devices = Text (JDict entries)"
    using validate_devices_Inr_D json_dumps_parsed by blast
  with v show ?thesis by (auto simp: get_registered_devices_dict)
qed

theorem load_checks_each_entry_alone_witness:
  "list_all (\<lambda>(name, value). well_formed_entry example_validation value) clashing_entries \<and>
   get_registered_devices example_validation (Some (Text (JDict clashing_entries))) =
     Inr [(''A'', \<lparr>ip_address = JStr ''10.0.0.5'', port = JInt 8080,
                   onion_address = JStr ''abcd...onion'', clients = [(''c1'', JStr ''KEY1'')]\<rparr>),
          (''B'', \<lparr>ip_address = JStr ''10.0.0.5'', port = JInt 8080,
                   onion_address = JStr ''abcd...onion'', clients = []\<rparr>)]"
proof -
  have h: "list_all (\<lambda>(name, value). well_formed_entry example_validation value) clashing_entries"
    by (simp add: clashing_entries_def well_formed_entry_def values_list_def example_simps)
  show ?thesis
    using h load_checks_each_entry_alone [OF h]
    by (simp add: get_registered_devices_def validate_device_def values_list_def example_simps
        clashing_entries_def)
qed

section \<open>Deleting a client\<close>

lemma delete_eq_Nil_iff:
  "AList.delete k al = [] \<longleftrightarrow> set (map fst al) \<subseteq> {k}"
  by (induction al) (auto simp: AList.delete_eq)

lemma map_of_keys: "map_of al k = Some v \<Longrightarrow> k \<in> set (map fst al)"
  by (induction al) (auto split: if_splits)

lemma delete_client_result:
  assumes d: "map_of (registered_devices st) device_name = Some d"
    and c: "map_of (onion_service_main_dir st) device_name = Some content"
    and sync: "set (map fst (authorized_clients content)) = set (map fst (clients d))"
    and client: "client_name \<in> set (map fst (clients d))"
  shows "delete_client st device_name device_name client_name =
     (let remaining = AList.delete client_name (clients d);
          devices = AList.update device_name (d\<lparr>clients := remaining\<rparr>) (registered_devices st)
      in (Inr (),
          if remaining = []
          then st\<lparr>onion_service_main_dir := AList.delete device_name (onion_service_main_dir st),
                  registered_devices := AList.delete device_name (registered_devices st),
                  registered_devices_file :=
                    Some (json_dumps (AList.delete device_name (registered_devices st))),
                  snapshots := AList.delete device_name (registered_devices st) # devices #
                    snapshots st\<rparr>
          else st\<lparr>onion_service_main_dir :=
                    AList.update device_name
                      (content\<lparr>authorized_clients :=
                         AList.delete client_name (authorized_clients content)\<rparr>)
                      (onion_service_main_dir st),
                  registered_devices := devices,
                  registered_devices_file := Some (json_dumps devices),
                  snapshots := devices # snapshots st\<rparr>))"
proof -
  let ?auth = "AList.delete client_name (authorized_clients content)"
  let ?dirs = "AList.update device_name (content\<lparr>authorized_clients := ?auth\<rparr>)
                 (onion_service_main_dir st)"
  let ?remaining = "AList.delete client_name (clients d)"
  let ?devices = "AList.update device_name (d\<lparr>clients := ?remaining\<rparr>) (registered_devices st)"
  from client sync have u: "unlink (onion_service_main_dir st) device_name client_name = Inr ?dirs"
    by (simp add: unlink_def c)
  have e: "?auth = [] \<longleftrightarrow> ?remaining = []"
    using sync by (simp add: delete_eq_Nil_iff)
  have chk: "check_existing_onion_service_auth ?dirs device_name \<longleftrightarrow> ?remaining \<noteq> []"
    using e by (simp add: check_existing_onion_service_auth_def AList.update_conv')
  have rm: "rmtree ?dirs device_name = Inr (AList.delete device_name (onion_service_main_dir st))"
    by (simp add: rmtree_def AList.delete_update_same AList.dom_update)
  have key: "device_name \<in> fst ` set ?devices" by (simp add: AList.dom_update)
  show ?thesis
  proof (cases "?remaining = []")
    case True
    then show ?thesis
      using u chk rm key d client
      by (simp add: delete_client_def delete_device_def set_registered_devices_def Let_def
            AList.delete_update_same)
  next
    case False
    then show ?thesis
      using u chk d client
      by (simp add: delete_client_def set_registered_devices_def Let_def)
  qed
qed

text \<open>
  Claim C2: \<^verbatim>\<open>_delete_client\<close> removes the client's authorization file and its entry in
  the registry and saves; when no client of the device remains it goes on to delete the
  device: the directory, the entry of the registry, and a second save. The directory's
  authorization files are taken to be those of the registered clients, since the code
  decides the cascade on the files. The witness is the spec's example: from the registry
  with device A and its client c1 to the empty registry, the directory of A removed.
\<close>

theorem delete_client_cascades:
  assumes d: "map_of (registered_devices st) device_name = Some d"
    and c: "map_of (onion_service_main_dir st) device_name = Some content"
    and sync: "set (map fst (authorized_clients content)) = set (map fst (clients d))"
    and client: "client_name \<in> set (map fst (clients d))"
  shows "delete_client st device_name device_name client_name =
     (let remaining = AList.delete client_name (clients d);
          devices = AList.update device_name (d\<lparr>clients := remaining\<rparr>) (registered_devices st)
      in (Inr (),
          if remaining = []
          then st\<lparr>onion_service_main_dir := AList.delete device_name (onion_service_main_dir st),
                  registered_devices := AList.delete device_name (registered_devices st),
                  registered_devices_file :=
                    Some (json_dumps (AList.delete device_name (registered_devices st))),
                  snapshots := AList.delete device_name (registered_devices st) # devices #
                    snapshots st\<rparr>
          else st\<lparr>onion_service_main_dir :=
                    AList.update device_name
                      (content\<lparr>authorized_clients :=
                         AList.delete client_name (authorized_clients content)\<rparr>)
                      (onion_service_main_dir st),
                  registered_devices := devices,
                  registered_devices_file := Some (json_dumps devices),
                  snapshots := devices # snapshots st\<rparr>))"
  using d c sync client by (rule delete_client_result)

theorem delete_client_cascades_witness:
  "delete_client cascade_example ''A'' ''A'' ''c1'' =
     (Inr (),
      \<lparr>registered_devices = [],
       registered_devices_file = Some (Text (JDict [])),
       snapshots = [[], [(''A'', example_device\<lparr>clients := []\<rparr>)]],
       onion_service_main_dir = [],
       tor_running = False\<rparr>)"
proof -
  have h1: "map_of (registered_devices cascade_example) ''A'' = Some example_device"
    by (simp add: cascade_example_def)
  have h2: "map_of (onion_service_main_dir cascade_example) ''A'' =
      Some \<lparr>service_state = ''abcd...onion'', authorized_clients = [(''c1'', ''KEY1'')]\<rparr>"
    by (simp add: cascade_example_def)
  have h3: "set (map fst (authorized_clients
        \<lparr>service_state = ''abcd...onion'', authorized_clients = [(''c1'', ''KEY1'')]\<rparr>)) =
      set (map fst (clients example_device))"
    by (simp add: example_device_def)
  have h4: "''c1'' \<in> set (map fst (clients example_device))"
    by (simp add: example_device_def)
  show ?thesis
    using delete_client_cascades [OF h1 h2 h3 h4]
    by (simp add: cascade_example_def example_device_def json_dumps_def)
qed

section \<open>Adding a device\<close>

text \<open>
  Claim C3: when the creation of the onion service fails, \<^verbatim>\<open>_add_device\<close> ends with
  that exception, and the registry in memory, the registry file (nothing was written)
  and the directories are what they were before the call. The failing call leaving the
  directories alone is the spec's contract of the control client, see
  \<open>create_disk_v3_onion_service\<close>.
\<close>

theorem add_device_failed_creation_leaves_no_trace:
  assumes "prompt_device_name (registered_devices st) (device_names U) = Inr device_name"
    and "prompt_ip_address None None (ip_addresses U) = Inr ip"
    and "ip_address_class C ip = Some IPv4Address"
    and "prompt_port (Some (registered_devices st)) (Some (JStr ip)) (ports U) = Inr p"
    and "prompt_client_name (registered_devices st) None (client_names U) = Inr client_name"
    and "prompt_public_key (public_keys U) = Inr public_key"
    and "create_outcome C device_name public_key p ip client_name = Inl e"
  shows "fst (add_device C U st) = Inl e \<and>
     registered_devices (snd (add_device C U st)) = registered_devices st \<and>
     registered_devices_file (snd (add_device C U st)) = registered_devices_file st \<and>
     snapshots (snd (add_device C U st)) = snapshots st \<and>
     onion_service_main_dir (snd (add_device C U st)) = onion_service_main_dir st"
  using assms
  by (simp add: add_device_def create_disk_v3_onion_service_def start_tor_def Let_def)

theorem add_device_failed_creation_leaves_no_trace_witness:
  "fst (add_device failing_tor example_operator cascade_example) = Inl ControlError \<and>
   registered_devices (snd (add_device failing_tor example_operator cascade_example)) =
     [(''A'', example_device)] \<and>
   registered_devices_file (snd (add_device failing_tor example_operator cascade_example)) =
     Some (json_dumps [(''A'', example_device)]) \<and>
   snapshots (snd (add_device failing_tor example_operator cascade_example)) = [] \<and>
   onion_service_main_dir (snd (add_device failing_tor example_operator cascade_example)) =
     [(''A'', \<lparr>service_state = ''abcd...onion'', authorized_clients = [(''c1'', ''KEY1'')]\<rparr>)]"
proof -
  have h1: "prompt_device_name (registered_devices cascade_example) (device_names example_operator)
      = Inr ''B''"
    by (simp add: cascade_example_def example_operator_def)
  have h2: "prompt_ip_address None None (ip_addresses example_operator) = Inr ''192.168.1.10''"
    by (simp add: example_operator_def ip_address_duplicate_def)
  have h3: "ip_address_class failing_tor ''192.168.1.10'' = Some IPv4Address"
    by (simp add: failing_tor_def example_ip_class_def)
  have h4: "prompt_port (Some (registered_devices cascade_example)) (Some (JStr ''192.168.1.10''))
      (ports example_operator) = Inr 9000"
    by (simp add: cascade_example_def example_operator_def port_duplicate_def example_device_def)
  have h5: "prompt_client_name (registered_devices cascade_example) None
      (client_names example_operator) = Inr ''c1''"
    by (simp add: example_operator_def)
  have h6: "prompt_public_key (public_keys example_operator) = Inr ''KEY2''"
    by (simp add: example_operator_def)
  have h7: "create_outcome failing_tor ''B'' ''KEY2'' 9000 ''192.168.1.10'' ''c1'' = Inl ControlError"
    by (simp add: failing_tor_def)
  show ?thesis
    using add_device_failed_creation_leaves_no_trace [OF h1 h2 h3 h4 h5 h6 h7]
    by (simp add: cascade_example_def)
qed

text \<open>The creation example of the spec, for comparison: the call succeeds.\<close>

lemma creation_example:
  "add_device working_tor example_operator empty_proxy =
     (Inr (),
      \<lparr>registered_devices =
         [(''B'', \<lparr>ip_address = JStr ''192.168.1.10'', port = JInt 9000,
                   onion_address = JStr ''xyz...onion'', clients = [(''c1'', JStr ''KEY2'')]\<rparr>)],
       registered_devices_file = Some (json_dumps
         [(''B'', \<lparr>ip_address = JStr ''192.168.1.10'', port = JInt 9000,
                   onion_address = JStr ''xyz...onion'', clients = [(''c1'', JStr ''KEY2'')]\<rparr>)]),
       snapshots = [[(''B'', \<lparr>ip_address = JStr ''192.168.1.10'', port = JInt 9000,
                   onion_address = JStr ''xyz...onion'', clients = [(''c1'', JStr ''KEY2'')]\<rparr>)]],
       onion_service_main_dir =
         [(''B'', \<lparr>service_state = ''xyz...onion'', authorized_clients = [(''c1'', ''KEY2'')]\<rparr>)],
       tor_running = False\<rparr>)"
  by (simp add: add_device_def create_disk_v3_onion_service_def start_tor_def terminate_tor_def
        Let_def working_tor_def example_operator_def empty_proxy_def example_ip_class_def
        ip_address_duplicate_def port_duplicate_def set_registered_devices_def)

section \<open>Renaming a device\<close>

lemma prompt_device_name_fresh:
  "prompt_device_name devices answers = Inr name \<Longrightarrow> name \<notin> set (map fst devices)"
  by (induction answers) (auto split: if_splits)

text \<open>
  Claim C6: the branch \<^verbatim>\<open>Rename device\<close> moves the directory first. When the move
  raises, the state is untouched: registry, file and directories. When it succeeds, the
  directory is under the new name, the registry holds the device's unchanged value
  (address, port, onion address, clients) under the new name and nothing under the old
  one, every other device is as before, and the file holds the new registry.
\<close>

theorem rename_device_moves_then_swaps:
  assumes d: "map_of (registered_devices st) device_name = Some d"
    and new: "prompt_device_name (registered_devices st) (device_names U) = Inr new_device_name"
  shows
    "(\<forall>e. replace_dir (onion_service_main_dir st) device_name new_device_name = Inl e \<longrightarrow>
        rename_device U st device_name device_name = (Inl e, st)) \<and>
     (\<forall>dirs. replace_dir (onion_service_main_dir st) device_name new_device_name = Inr dirs \<longrightarrow>
        fst (rename_device U st device_name device_name) = Inr new_device_name \<and>
        onion_service_main_dir (snd (rename_device U st device_name device_name)) = dirs \<and>
        map_of dirs new_device_name = map_of (onion_service_main_dir st) device_name \<and>
        map_of dirs device_name = None \<and>
        map_of (registered_devices (snd (rename_device U st device_name device_name)))
          new_device_name = Some d \<and>
        map_of (registered_devices (snd (rename_device U st device_name device_name)))
          device_name = None \<and>
        (\<forall>other. other \<noteq> device_name \<and> other \<noteq> new_device_name \<longrightarrow>
           map_of (registered_devices (snd (rename_device U st device_name device_name))) other =
           map_of (registered_devices st) other) \<and>
        registered_devices_file (snd (rename_device U st device_name device_name)) =
          Some (json_dumps (registered_devices (snd (rename_device U st device_name device_name)))))"
proof -
  from new have fresh: "new_device_name \<notin> set (map fst (registered_devices st))"
    by (rule prompt_device_name_fresh)
  from d have "device_name \<in> set (map fst (registered_devices st))" by (rule map_of_keys)
  with fresh have ne: "new_device_name \<noteq> device_name" by auto
  show ?thesis
  proof (intro conjI allI impI)
    fix e
    assume "replace_dir (onion_service_main_dir st) device_name new_device_name = Inl e"
    then show "rename_device U st device_name device_name = (Inl e, st)"
      using new by (simp add: rename_device_def)
  next
    fix dirs
    assume r: "replace_dir (onion_service_main_dir st) device_name new_device_name = Inr dirs"
    have res: "rename_device U st device_name device_name =
        (Inr new_device_name, set_registered_devices
          (st\<lparr>onion_service_main_dir := dirs,
              registered_devices := AList.update new_device_name d
                (AList.delete device_name (registered_devices st))\<rparr>))"
      using new r d by (simp add: rename_device_def Let_def)
    from r ne obtain content where
      c: "map_of (onion_service_main_dir st) device_name = Some content"
      and dirs: "dirs = AList.update new_device_name content
                   (AList.delete device_name (onion_service_main_dir st))"
      by (auto simp: replace_dir_def split: option.splits if_splits)
    show "fst (rename_device U st device_name device_name) = Inr new_device_name"
      by (simp add: res)
    show "onion_service_main_dir (snd (rename_device U st device_name device_name)) = dirs"
      by (simp add: res set_registered_devices_def)
    show "map_of dirs new_device_name = map_of (onion_service_main_dir st) device_name"
      by (simp add: dirs c AList.update_conv')
    show "map_of dirs device_name = None"
      using ne by (simp add: dirs AList.update_conv' AList.delete_conv')
    show "map_of (registered_devices (snd (rename_device U st device_name device_name)))
          new_device_name = Some d"
      by (simp add: res set_registered_devices_def AList.update_conv')
    show "map_of (registered_devices (snd (rename_device U st device_name device_name)))
          device_name = None"
      using ne by (simp add: res set_registered_devices_def AList.update_conv' AList.delete_conv')
    show "registered_devices_file (snd (rename_device U st device_name device_name)) =
          Some (json_dumps (registered_devices (snd (rename_device U st device_name device_name))))"
      by (simp add: res set_registered_devices_def)
  next
    fix dirs other
    assume r: "replace_dir (onion_service_main_dir st) device_name new_device_name = Inr dirs"
      and o: "other \<noteq> device_name \<and> other \<noteq> new_device_name"
    have res: "rename_device U st device_name device_name =
        (Inr new_device_name, set_registered_devices
          (st\<lparr>onion_service_main_dir := dirs,
              registered_devices := AList.update new_device_name d
                (AList.delete device_name (registered_devices st))\<rparr>))"
      using new r d by (simp add: rename_device_def Let_def)
    show "map_of (registered_devices (snd (rename_device U st device_name device_name))) other =
           map_of (registered_devices st) other"
      using o by (simp add: res set_registered_devices_def AList.update_conv' AList.delete_conv')
  qed
qed

theorem rename_device_moves_then_swaps_witness:
  "rename_device example_operator two_devices ''A'' ''A'' = (Inl OSError, two_devices) \<and>
   rename_device (example_operator\<lparr>device_names := [''C'', ''D'']\<rparr>) two_devices ''A'' ''A'' =
     (Inr ''D'',
      two_devices\<lparr>registered_devices := [(''C'', other_device), (''D'', example_device)],
        registered_devices_file :=
          Some (json_dumps [(''C'', other_device), (''D'', example_device)]),
        snapshots := [[(''C'', other_device), (''D'', example_device)]],
        onion_service_main_dir :=
          [(''C'', \<lparr>service_state = ''efgh...onion'', authorized_clients = [(''c2'', ''KEY3'')]\<rparr>),
           (''B'', \<lparr>service_state = ''ijkl...onion'', authorized_clients = []\<rparr>),
           (''D'', \<lparr>service_state = ''abcd...onion'', authorized_clients = [(''c1'', ''KEY1'')]\<rparr>)]\<rparr>)"
proof -
  have d: "map_of (registered_devices two_devices) ''A'' = Some example_device"
    by (simp add: two_devices_def)
  have n1: "prompt_device_name (registered_devices two_devices) (device_names example_operator)
      = Inr ''B''"
    by (simp add: two_devices_def example_operator_def)
  have n2: "prompt_device_name (registered_devices two_devices)
      (device_names (example_operator\<lparr>device_names := [''C'', ''D'']\<rparr>)) = Inr ''D''"
    by (simp add: two_devices_def)
  have r1: "replace_dir (onion_service_main_dir two_devices) ''A'' ''B'' = Inl OSError"
    by (simp add: two_devices_def replace_dir_def)
  have r2: "replace_dir (onion_service_main_dir two_devices) ''A'' ''D'' =
      Inr [(''C'', \<lparr>service_state = ''efgh...onion'', authorized_clients = [(''c2'', ''KEY3'')]\<rparr>),
           (''B'', \<lparr>service_state = ''ijkl...onion'', authorized_clients = []\<rparr>),
           (''D'', \<lparr>service_state = ''abcd...onion'', authorized_clients = [(''c1'', ''KEY1'')]\<rparr>)]"
    by (simp add: two_devices_def replace_dir_def)
  show ?thesis
    using rename_device_moves_then_swaps [OF d n1] rename_device_moves_then_swaps [OF d n2] r1 r2
    by (simp add: rename_device_def two_devices_def set_registered_devices_def Let_def)
qed

section \<open>Adding a client\<close>

lemma add_client_no_directory:
  "device_name \<notin> set (map fst (onion_service_main_dir st)) \<Longrightarrow>
     add_client C st device_name client_name public_key = (Inl FileNotFoundError, st)"
  by (simp add: add_client_def)

lemma add_client_write_fails:
  assumes "device_name \<in> set (map fst (onion_service_main_dir st))"
    and "add_auth_outcome C device_name public_key client_name = Some e"
  shows "add_client C st device_name client_name public_key = (Inl e, st)"
  using assms by (simp add: add_client_def add_disk_v3_onion_service_auth_def)

lemma add_client_succeeds:
  assumes c: "map_of (onion_service_main_dir st) device_name = Some content"
    and o: "add_auth_outcome C device_name public_key client_name = None"
    and d: "map_of (registered_devices st) device_name = Some d"
  shows "add_client C st device_name client_name public_key =
     (Inr (),
      st\<lparr>onion_service_main_dir :=
           AList.update device_name
             (content\<lparr>authorized_clients :=
                AList.update client_name public_key (authorized_clients content)\<rparr>)
             (onion_service_main_dir st),
         registered_devices :=
           AList.update device_name
             (d\<lparr>clients := AList.update client_name (JStr public_key) (clients d)\<rparr>)
             (registered_devices st),
         registered_devices_file :=
           Some (json_dumps (AList.update device_name
             (d\<lparr>clients := AList.update client_name (JStr public_key) (clients d)\<rparr>)
             (registered_devices st))),
         snapshots :=
           AList.update device_name
             (d\<lparr>clients := AList.update client_name (JStr public_key) (clients d)\<rparr>)
             (registered_devices st) # snapshots st\<rparr>)"
proof -
  from c have k: "device_name \<in> set (map fst (onion_service_main_dir st))"
    by (rule map_of_keys)
  have w: "add_disk_v3_onion_service_auth C (onion_service_main_dir st) device_name public_key
      client_name = (None, AList.update device_name
                    (content\<lparr>authorized_clients :=
                       AList.update client_name public_key (authorized_clients content)\<rparr>)
                    (onion_service_main_dir st))"
    using c o by (simp add: add_disk_v3_onion_service_auth_def)
  show ?thesis
    using k d unfolding add_client_def w
    by (simp add: Let_def set_registered_devices_def)
qed

text \<open>
  Claim C7: \<^verbatim>\<open>_add_client\<close> raises \<^verbatim>\<open>FileNotFoundError\<close> when the device's directory
  does not exist, and changes nothing. With the directory there, it first has the
  authorization file written; when that fails the exception goes on and the registry
  and its file stay as they were; when it succeeds, the client and its key are added to
  the clients of the registered device and the registry is saved.
\<close>

theorem add_client_writes_artifact_then_registry:
  "(device_name \<notin> set (map fst (onion_service_main_dir st)) \<longrightarrow>
      add_client C st device_name client_name public_key = (Inl FileNotFoundError, st)) \<and>
   (\<forall>e. device_name \<in> set (map fst (onion_service_main_dir st)) \<longrightarrow>
      add_auth_outcome C device_name public_key client_name = Some e \<longrightarrow>
      add_client C st device_name client_name public_key = (Inl e, st)) \<and>
   (\<forall>content d. map_of (onion_service_main_dir st) device_name = Some content \<longrightarrow>
      add_auth_outcome C device_name public_key client_name = None \<longrightarrow>
      map_of (registered_devices st) device_name = Some d \<longrightarrow>
      add_client C st device_name client_name public_key =
        (Inr (),
         st\<lparr>onion_service_main_dir :=
              AList.update device_name
                (content\<lparr>authorized_clients :=
                   AList.update client_name public_key (authorized_clients content)\<rparr>)
                (onion_service_main_dir st),
            registered_devices :=
              AList.update device_name
                (d\<lparr>clients := AList.update client_name (JStr public_key) (clients d)\<rparr>)
                (registered_devices st),
            registered_devices_file :=
              Some (json_dumps (AList.update device_name
                (d\<lparr>clients := AList.update client_name (JStr public_key) (clients d)\<rparr>)
                (registered_devices st))),
            snapshots :=
              AList.update device_name
                (d\<lparr>clients := AList.update client_name (JStr public_key) (clients d)\<rparr>)
                (registered_devices st) # snapshots st\<rparr>))"
  apply (rule conjI)
   apply (rule impI)
   apply (erule add_client_no_directory)
  apply (rule conjI)
   apply (rule allI, rule impI, rule impI)
   apply (erule (1) add_client_write_fails)
  apply (rule allI, rule allI, rule impI, rule impI, rule impI)
  apply (erule (2) add_client_succeeds)
  done

theorem add_client_writes_artifact_then_registry_witness:
  "add_client working_tor cascade_example ''Z'' ''c9'' ''KEY9'' =
     (Inl FileNotFoundError, cascade_example) \<and>
   add_client failing_tor cascade_example ''A'' ''c9'' ''KEY9'' =
     (Inl ControlError, cascade_example) \<and>
   add_client working_tor cascade_example ''A'' ''c9'' ''KEY9'' =
     (Inr (),
      cascade_example\<lparr>onion_service_main_dir :=
         [(''A'', \<lparr>service_state = ''abcd...onion'',
                   authorized_clients = [(''c1'', ''KEY1''), (''c9'', ''KEY9'')]\<rparr>)],
        registered_devices :=
          [(''A'', example_device\<lparr>clients := [(''c1'', JStr ''KEY1''), (''c9'', JStr ''KEY9'')]\<rparr>)],
        registered_devices_file := Some (json_dumps
          [(''A'', example_device\<lparr>clients := [(''c1'', JStr ''KEY1''), (''c9'', JStr ''KEY9'')]\<rparr>)]),
        snapshots :=
          [[(''A'', example_device\<lparr>clients := [(''c1'', JStr ''KEY1''), (''c9'', JStr ''KEY9'')]\<rparr>)]]\<rparr>)"
proof -
  note T1 = add_client_writes_artifact_then_registry
    [of "''Z''" cascade_example working_tor "''c9''" "''KEY9''", THEN conjunct1, rule_format]
  note T2 = add_client_writes_artifact_then_registry
    [of "''A''" cascade_example failing_tor "''c9''" "''KEY9''",
      THEN conjunct2, THEN conjunct1, rule_format]
  note T3 = add_client_writes_artifact_then_registry
    [of "''A''" cascade_example working_tor "''c9''" "''KEY9''",
      THEN conjunct2, THEN conjunct2, rule_format]
  have a: "add_client working_tor cascade_example ''Z'' ''c9'' ''KEY9'' =
     (Inl FileNotFoundError, cascade_example)"
    by (rule T1) (simp add: cascade_example_def)
  have b: "add_client failing_tor cascade_example ''A'' ''c9'' ''KEY9'' =
     (Inl ControlError, cascade_example)"
    by (rule T2) (simp_all add: cascade_example_def failing_tor_def)
  have c: "map_of (onion_service_main_dir cascade_example) ''A'' =
      Some \<lparr>service_state = ''abcd...onion'', authorized_clients = [(''c1'', ''KEY1'')]\<rparr>"
    by (simp add: cascade_example_def)
  have o: "add_auth_outcome working_tor ''A'' ''KEY9'' ''c9'' = None"
    by (simp add: working_tor_def)
  have d: "map_of (registered_devices cascade_example) ''A'' = Some example_device"
    by (simp add: cascade_example_def)
  show ?thesis
    using a b T3 [OF c o d]
    by (simp add: cascade_example_def example_device_def)
qed

section \<open>Starting the proxy\<close>

lemma start_services_directories:
  "snd (start_services C devices dirs n) = dirs"
  by (induction devices arbitrary: n)
     (auto simp: start_disk_v3_onion_service_def split: sum.splits)

lemma start_services_counts:
  "fst (start_services C devices dirs n) = Inr m \<Longrightarrow>
     m = n + length (filter (started C) devices)"
proof (induction devices arbitrary: n)
  case Nil
  then show ?case by simp
next
  case (Cons entry devices)
  obtain device v where entry: "entry = (device, v)" by (cases entry)
  show ?case
  proof (cases "start_outcome C device (port v) (ip_address v)")
    case (Inl e)
    with Cons.prems entry show ?thesis
      by (simp add: start_disk_v3_onion_service_def)
  next
    case (Inr address)
    show ?thesis
    proof (cases "onion_address v = JStr address")
      case True
      with Cons.prems entry Inr
      have "fst (start_services C devices dirs (n + 1)) = Inr m"
        by (simp add: start_disk_v3_onion_service_def)
      from Cons.IH [OF this] True Inr entry show ?thesis
        by (simp add: started_def)
    next
      case False
      with Cons.prems entry Inr
      have "fst (start_services C devices dirs n) = Inr m"
        by (simp add: start_disk_v3_onion_service_def)
      from Cons.IH [OF this] False Inr entry show ?thesis
        by (simp add: started_def)
    qed
  qed
qed

lemma start_services_returns:
  "list_all (start_returns C) devices \<Longrightarrow> \<exists>m. fst (start_services C devices dirs n) = Inr m"
proof (induction devices arbitrary: n)
  case Nil
  then show ?case by simp
next
  case (Cons entry devices)
  obtain device v where entry: "entry = (device, v)" by (cases entry)
  from Cons.prems entry obtain address where
    a: "start_outcome C device (port v) (ip_address v) = Inr address"
    by (auto simp: start_returns_def split: sum.splits)
  from Cons.prems have r: "list_all (start_returns C) devices" by simp
  show ?case
    using Cons.IH [OF r, of n] Cons.IH [OF r, of "n + 1"] a entry
    by (simp add: start_disk_v3_onion_service_def)
qed

lemma start_proxy_state:
  "snd (start_proxy C st) = st\<lparr>tor_running := True\<rparr>"
proof -
  obtain r dirs where s: "start_services C (registered_devices st) (onion_service_main_dir st) 0
      = (r, dirs)"
    by (cases "start_services C (registered_devices st) (onion_service_main_dir st) 0")
  then have "dirs = onion_service_main_dir st"
    using start_services_directories [of C "registered_devices st" "onion_service_main_dir st" 0]
    by simp
  with s show ?thesis by (simp add: start_proxy_def start_tor_def Let_def)
qed

lemma start_proxy_result:
  "fst (start_proxy C st) =
     fst (start_services C (registered_devices st) (onion_service_main_dir st) 0)"
  by (simp add: start_proxy_def start_tor_def Let_def split: prod.splits)

text \<open>
  Claim C4: \<^verbatim>\<open>start_proxy\<close> leaves the registry as it is, whatever the control client
  returns, so a device whose returned address differs from the stored one keeps its
  entry; it never writes the registry file; and the counter it ends with is the number
  of devices whose returned address is the stored one: a device with a different
  address is not counted, a device with the same address is.
\<close>

theorem start_proxy_never_touches_registry:
  "registered_devices (snd (start_proxy C st)) = registered_devices st \<and>
   registered_devices_file (snd (start_proxy C st)) = registered_devices_file st \<and>
   snapshots (snd (start_proxy C st)) = snapshots st \<and>
   (\<forall>n. fst (start_proxy C st) = Inr n \<longrightarrow>
      n = length (filter (started C) (registered_devices st))) \<and>
   (list_all (start_returns C) (registered_devices st) \<longrightarrow>
      fst (start_proxy C st) = Inr (length (filter (started C) (registered_devices st))))"
proof (intro conjI allI impI)
  show "registered_devices (snd (start_proxy C st)) = registered_devices st"
    by (simp add: start_proxy_state)
  show "registered_devices_file (snd (start_proxy C st)) = registered_devices_file st"
    by (simp add: start_proxy_state)
  show "snapshots (snd (start_proxy C st)) = snapshots st"
    by (simp add: start_proxy_state)
next
  fix n
  assume "fst (start_proxy C st) = Inr n"
  then show "n = length (filter (started C) (registered_devices st))"
    using start_services_counts [of C "registered_devices st" "onion_service_main_dir st" 0 n]
    by (simp add: start_proxy_result)
next
  assume "list_all (start_returns C) (registered_devices st)"
  then obtain m where m: "fst (start_services C (registered_devices st)
      (onion_service_main_dir st) 0) = Inr m"
    using start_services_returns [of C "registered_devices st" "onion_service_main_dir st" 0]
    by auto
  then have "m = length (filter (started C) (registered_devices st))"
    using start_services_counts [of C "registered_devices st" "onion_service_main_dir st" 0 m]
    by simp
  with m show "fst (start_proxy C st) = Inr (length (filter (started C) (registered_devices st)))"
    by (simp add: start_proxy_result)
qed



theorem start_proxy_never_touches_registry_witness:
  "list_all (start_returns working_tor) (registered_devices two_devices) \<and>
   started working_tor (''A'', example_device) \<and>
   \<not> started working_tor (''C'', other_device) \<and>
   fst (start_proxy working_tor two_devices) = Inr 1 \<and>
   registered_devices (snd (start_proxy working_tor two_devices)) =
     [(''A'', example_device), (''C'', other_device)] \<and>
   snapshots (snd (start_proxy working_tor two_devices)) = []"
proof -
  note T = start_proxy_never_touches_registry [of working_tor two_devices]
  have h: "list_all (start_returns working_tor) (registered_devices two_devices)"
    by (simp add: two_devices_def start_returns_def working_tor_def)
  have a: "started working_tor (''A'', example_device)"
    by (simp add: started_def working_tor_def example_device_def)
  have c: "\<not> started working_tor (''C'', other_device)"
    by (simp add: started_def working_tor_def other_device_def)
  have regs: "registered_devices two_devices = [(''A'', example_device), (''C'', other_device)]"
    by (simp add: two_devices_def)
  have s: "length (filter (started working_tor) (registered_devices two_devices)) = 1"
    unfolding regs using a c by simp
  from T have "list_all (start_returns working_tor) (registered_devices two_devices) \<longrightarrow>
      fst (start_proxy working_tor two_devices) =
        Inr (length (filter (started working_tor) (registered_devices two_devices)))"
    by (elim conjE)
  with h s have r: "fst (start_proxy working_tor two_devices) = Inr 1" by simp
  from T have r1: "registered_devices (snd (start_proxy working_tor two_devices)) =
      registered_devices two_devices"
    by (elim conjE)
  from T have r2: "snapshots (snd (start_proxy working_tor two_devices)) = snapshots two_devices"
    by (elim conjE)
  have sn: "snapshots two_devices = []" by (simp add: two_devices_def)
  show ?thesis
    using h a c r r1 r2 regs sn by simp
qed

section \<open>Changing the address or the port of a device\<close>

lemma ip_address_duplicate_iff:
  "ip_address_duplicate (Some devices) (Some q) ip \<longleftrightarrow>
     (\<exists>name value. (name, value) \<in> set devices \<and>
        py_eq (ip_address value) (JStr ip) \<and> py_eq (port value) q)"
  by (auto simp: ip_address_duplicate_def list_ex_iff)

lemma port_duplicate_iff:
  "port_duplicate (Some devices) (Some a) p \<longleftrightarrow>
     (\<exists>name value. (name, value) \<in> set devices \<and>
        py_eq (ip_address value) a \<and> py_eq (port value) (JInt p))"
  by (auto simp: port_duplicate_def list_ex_iff)

lemma change_ip_address_rejected:
  assumes "map_of (registered_devices st) device_name = Some d"
    and "ip_address_duplicate (Some (registered_devices st)) (Some (port d)) ip"
  shows "change_ip_address C (U\<lparr>ip_addresses := ip # rest\<rparr>) st device_name =
     change_ip_address C (U\<lparr>ip_addresses := rest\<rparr>) st device_name"
  using assms by (simp add: change_ip_address_def)

lemma change_ip_address_ipv6:
  assumes "map_of (registered_devices st) device_name = Some d"
    and "\<not> ip_address_duplicate (Some (registered_devices st)) (Some (port d)) ip"
    and "ip_address_class C ip = Some IPv6Address"
  shows "change_ip_address C (U\<lparr>ip_addresses := ip # rest\<rparr>) st device_name = (Inr (), st)"
  using assms by (simp add: change_ip_address_def)

lemma change_ip_address_accepted:
  assumes "map_of (registered_devices st) device_name = Some d"
    and "\<not> ip_address_duplicate (Some (registered_devices st)) (Some (port d)) ip"
    and "ip_address_class C ip = Some IPv4Address"
  shows "change_ip_address C (U\<lparr>ip_addresses := ip # rest\<rparr>) st device_name =
     (Inr (),
      st\<lparr>registered_devices :=
           AList.update device_name (d\<lparr>ip_address := JStr ip\<rparr>) (registered_devices st),
         registered_devices_file :=
           Some (json_dumps
             (AList.update device_name (d\<lparr>ip_address := JStr ip\<rparr>) (registered_devices st))),
         snapshots :=
           AList.update device_name (d\<lparr>ip_address := JStr ip\<rparr>) (registered_devices st) #
           snapshots st\<rparr>)"
  using assms by (simp add: change_ip_address_def set_registered_devices_def)

lemma change_webinterface_port_rejected:
  assumes "map_of (registered_devices st) device_name = Some d"
    and "port_duplicate (Some (registered_devices st)) (Some (ip_address d)) p"
  shows "change_webinterface_port (U\<lparr>ports := p # rest\<rparr>) st device_name =
     change_webinterface_port (U\<lparr>ports := rest\<rparr>) st device_name"
  using assms by (simp add: change_webinterface_port_def)

lemma change_webinterface_port_accepted:
  assumes "map_of (registered_devices st) device_name = Some d"
    and "\<not> port_duplicate (Some (registered_devices st)) (Some (ip_address d)) p"
  shows "change_webinterface_port (U\<lparr>ports := p # rest\<rparr>) st device_name =
     (Inr (),
      st\<lparr>registered_devices :=
           AList.update device_name (d\<lparr>port := JInt p\<rparr>) (registered_devices st),
         registered_devices_file :=
           Some (json_dumps
             (AList.update device_name (d\<lparr>port := JInt p\<rparr>) (registered_devices st))),
         snapshots :=
           AList.update device_name (d\<lparr>port := JInt p\<rparr>) (registered_devices st) #
           snapshots st\<rparr>)"
  using assms by (simp add: change_webinterface_port_def set_registered_devices_def)

text \<open>
  Claim C8, as the code has it. The branches \<^verbatim>\<open>Change IP address\<close> and
  \<^verbatim>\<open>Change webinterface port\<close> touch the registry and its file only. An answer is
  turned down, and the next one asked for, exactly when some registered device, the
  device being changed included, has an address equal to the candidate address and a
  port equal to the candidate port. An address that is not turned down and is an IPv6
  address ends the pass with nothing changed. Any other accepted answer replaces the
  address (or the port) of that device, in place, and the registry is saved.
\<close>

theorem change_network_checks_every_device:
  assumes d: "map_of (registered_devices st) device_name = Some d"
  shows
    "(ip_address_duplicate (Some (registered_devices st)) (Some (port d)) ip \<longleftrightarrow>
        (\<exists>name value. (name, value) \<in> set (registered_devices st) \<and>
           py_eq (ip_address value) (JStr ip) \<and> py_eq (port value) (port d))) \<and>
     (port_duplicate (Some (registered_devices st)) (Some (ip_address d)) p \<longleftrightarrow>
        (\<exists>name value. (name, value) \<in> set (registered_devices st) \<and>
           py_eq (ip_address value) (ip_address d) \<and> py_eq (port value) (JInt p))) \<and>
     (ip_address_duplicate (Some (registered_devices st)) (Some (port d)) ip \<longrightarrow>
        change_ip_address C (U\<lparr>ip_addresses := ip # rest\<rparr>) st device_name =
        change_ip_address C (U\<lparr>ip_addresses := rest\<rparr>) st device_name) \<and>
     (\<not> ip_address_duplicate (Some (registered_devices st)) (Some (port d)) ip \<longrightarrow>
      ip_address_class C ip = Some IPv6Address \<longrightarrow>
        change_ip_address C (U\<lparr>ip_addresses := ip # rest\<rparr>) st device_name = (Inr (), st)) \<and>
     (\<not> ip_address_duplicate (Some (registered_devices st)) (Some (port d)) ip \<longrightarrow>
      ip_address_class C ip = Some IPv4Address \<longrightarrow>
        change_ip_address C (U\<lparr>ip_addresses := ip # rest\<rparr>) st device_name =
        (Inr (),
         st\<lparr>registered_devices :=
              AList.update device_name (d\<lparr>ip_address := JStr ip\<rparr>) (registered_devices st),
            registered_devices_file :=
              Some (json_dumps
                (AList.update device_name (d\<lparr>ip_address := JStr ip\<rparr>) (registered_devices st))),
            snapshots :=
              AList.update device_name (d\<lparr>ip_address := JStr ip\<rparr>) (registered_devices st) #
              snapshots st\<rparr>)) \<and>
     (port_duplicate (Some (registered_devices st)) (Some (ip_address d)) p \<longrightarrow>
        change_webinterface_port (U\<lparr>ports := p # later\<rparr>) st device_name =
        change_webinterface_port (U\<lparr>ports := later\<rparr>) st device_name) \<and>
     (\<not> port_duplicate (Some (registered_devices st)) (Some (ip_address d)) p \<longrightarrow>
        change_webinterface_port (U\<lparr>ports := p # later\<rparr>) st device_name =
        (Inr (),
         st\<lparr>registered_devices :=
              AList.update device_name (d\<lparr>port := JInt p\<rparr>) (registered_devices st),
            registered_devices_file :=
              Some (json_dumps
                (AList.update device_name (d\<lparr>port := JInt p\<rparr>) (registered_devices st))),
            snapshots :=
              AList.update device_name (d\<lparr>port := JInt p\<rparr>) (registered_devices st) #
              snapshots st\<rparr>))"
  apply (rule conjI)
   apply (rule ip_address_duplicate_iff)
  apply (rule conjI)
   apply (rule port_duplicate_iff)
  apply (rule conjI)
   apply (rule impI)
   apply (erule change_ip_address_rejected [OF d])
  apply (rule conjI)
   apply (rule impI, rule impI)
   apply (erule (1) change_ip_address_ipv6 [OF d])
  apply (rule conjI)
   apply (rule impI, rule impI)
   apply (erule (1) change_ip_address_accepted [OF d])
  apply (rule conjI)
   apply (rule impI)
   apply (erule change_webinterface_port_rejected [OF d])
  apply (rule impI)
  apply (erule change_webinterface_port_accepted [OF d])
  done


theorem change_network_checks_every_device_witness:
  "ip_address_duplicate (Some (registered_devices two_devices)) (Some (JInt 80)) ''10.0.0.7'' \<and>
   change_ip_address working_tor (example_operator\<lparr>ip_addresses := [''10.0.0.7'', ''fe80::1'']\<rparr>)
     two_devices ''C'' = (Inr (), two_devices) \<and>
   change_ip_address working_tor (example_operator\<lparr>ip_addresses := [''10.0.0.8'']\<rparr>)
     two_devices ''C'' =
     (Inr (),
      two_devices\<lparr>registered_devices :=
          [(''A'', example_device), (''C'', other_device\<lparr>ip_address := JStr ''10.0.0.8''\<rparr>)],
        registered_devices_file := Some (json_dumps
          [(''A'', example_device), (''C'', other_device\<lparr>ip_address := JStr ''10.0.0.8''\<rparr>)]),
        snapshots :=
          [[(''A'', example_device), (''C'', other_device\<lparr>ip_address := JStr ''10.0.0.8''\<rparr>)]]\<rparr>) \<and>
   port_duplicate (Some (registered_devices two_devices)) (Some (JStr ''10.0.0.7'')) 80 \<and>
   change_webinterface_port (example_operator\<lparr>ports := [80, 8080]\<rparr>) two_devices ''C'' =
     (Inr (),
      two_devices\<lparr>registered_devices :=
          [(''A'', example_device), (''C'', other_device\<lparr>port := JInt 8080\<rparr>)],
        registered_devices_file := Some (json_dumps
          [(''A'', example_device), (''C'', other_device\<lparr>port := JInt 8080\<rparr>)]),
        snapshots :=
          [[(''A'', example_device), (''C'', other_device\<lparr>port := JInt 8080\<rparr>)]]\<rparr>)"
proof -
  have d: "map_of (registered_devices two_devices) ''C'' = Some other_device"
    by (simp add: two_devices_def)
  have regs: "registered_devices two_devices = [(''A'', example_device), (''C'', other_device)]"
    by (simp add: two_devices_def)
  have pd: "port other_device = JInt 80" and ad: "ip_address other_device = JStr ''10.0.0.7''"
    by (simp_all add: other_device_def)
  have dup1: "ip_address_duplicate (Some (registered_devices two_devices))
      (Some (port other_device)) ''10.0.0.7''"
    by (simp add: regs ip_address_duplicate_def other_device_def example_device_def)
  have nodup2: "\<not> ip_address_duplicate (Some (registered_devices two_devices))
      (Some (port other_device)) ''fe80::1''"
    by (simp add: regs ip_address_duplicate_def other_device_def example_device_def)
  have nodup3: "\<not> ip_address_duplicate (Some (registered_devices two_devices))
      (Some (port other_device)) ''10.0.0.8''"
    by (simp add: regs ip_address_duplicate_def other_device_def example_device_def)
  have v6: "ip_address_class working_tor ''fe80::1'' = Some IPv6Address"
    by (simp add: working_tor_def example_ip_class_def)
  have v4: "ip_address_class working_tor ''10.0.0.8'' = Some IPv4Address"
    by (simp add: working_tor_def example_ip_class_def)
  have pdup: "port_duplicate (Some (registered_devices two_devices))
      (Some (ip_address other_device)) 80"
    by (simp add: regs port_duplicate_def other_device_def example_device_def)
  have pnodup: "\<not> port_duplicate (Some (registered_devices two_devices))
      (Some (ip_address other_device)) 8080"
    by (simp add: regs port_duplicate_def other_device_def example_device_def)
  note T = change_network_checks_every_device [OF d]
  have a1: "change_ip_address working_tor
      (example_operator\<lparr>ip_addresses := [''10.0.0.7'', ''fe80::1'']\<rparr>) two_devices ''C'' =
     change_ip_address working_tor
      (example_operator\<lparr>ip_addresses := [''fe80::1'']\<rparr>) two_devices ''C''"
    using T [where ip = "''10.0.0.7''" and p = 0 and C = working_tor and U = example_operator and rest = "[''fe80::1'']" and later = "[]"] dup1
    by simp
  have a2: "change_ip_address working_tor
      (example_operator\<lparr>ip_addresses := [''fe80::1'']\<rparr>) two_devices ''C'' = (Inr (), two_devices)"
    using T [where ip = "''fe80::1''" and p = 0 and C = working_tor and U = example_operator and rest = "[]" and later = "[]"] nodup2 v6
    by simp
  have a3: "change_ip_address working_tor
      (example_operator\<lparr>ip_addresses := [''10.0.0.8'']\<rparr>) two_devices ''C'' =
     (Inr (),
      two_devices\<lparr>registered_devices :=
          AList.update ''C'' (other_device\<lparr>ip_address := JStr ''10.0.0.8''\<rparr>)
            (registered_devices two_devices),
        registered_devices_file := Some (json_dumps
          (AList.update ''C'' (other_device\<lparr>ip_address := JStr ''10.0.0.8''\<rparr>)
            (registered_devices two_devices))),
        snapshots :=
          AList.update ''C'' (other_device\<lparr>ip_address := JStr ''10.0.0.8''\<rparr>)
            (registered_devices two_devices) # snapshots two_devices\<rparr>)"
    using T [where ip = "''10.0.0.8''" and p = 0 and C = working_tor and U = example_operator and rest = "[]" and later = "[]"] nodup3 v4
    by simp
  have b1: "change_webinterface_port (example_operator\<lparr>ports := [80, 8080]\<rparr>) two_devices ''C'' =
      change_webinterface_port (example_operator\<lparr>ports := [8080]\<rparr>) two_devices ''C''"
    using T [where ip = "''10.0.0.8''" and p = 80 and C = working_tor and U = example_operator and rest = "[]" and later = "[8080]"] pdup
    by simp
  have b2: "change_webinterface_port (example_operator\<lparr>ports := [8080]\<rparr>) two_devices ''C'' =
     (Inr (),
      two_devices\<lparr>registered_devices :=
          AList.update ''C'' (other_device\<lparr>port := JInt 8080\<rparr>) (registered_devices two_devices),
        registered_devices_file := Some (json_dumps
          (AList.update ''C'' (other_device\<lparr>port := JInt 8080\<rparr>)
            (registered_devices two_devices))),
        snapshots :=
          AList.update ''C'' (other_device\<lparr>port := JInt 8080\<rparr>)
            (registered_devices two_devices) # snapshots two_devices\<rparr>)"
    using T [where ip = "''10.0.0.8''" and p = 8080 and C = working_tor and U = example_operator and rest = "[]" and later = "[]"] pnodup
    by simp
  have sn: "snapshots two_devices = []" by (simp add: two_devices_def)
  show ?thesis
    using dup1 pdup a1 a2 a3 b1 b2
    by (simp add: regs pd ad sn)
qed

text \<open>
  Claim C8 as it is written fails where the only device with the candidate pair is the
  device being changed: with device A at 10.0.0.5 and port 8080 alone in the registry,
  its own address, and its own port, are turned down; the operator who has no other
  answer leaves with an interrupt and nothing is changed.
\<close>

theorem change_ip_address_rejects_own_address:
  "\<not> list_ex (\<lambda>(name, value). name \<noteq> ''A'' \<and> py_eq (ip_address value) (JStr ''10.0.0.5'') \<and>
        py_eq (port value) (JInt 8080)) (registered_devices cascade_example) \<and>
   map_of (registered_devices cascade_example) ''A'' = Some example_device \<and>
   ip_address example_device = JStr ''10.0.0.5'' \<and> port example_device = JInt 8080 \<and>
   ip_address_class working_tor ''10.0.0.5'' = Some IPv4Address \<and>
   ip_address_duplicate (Some (registered_devices cascade_example)) (Some (JInt 8080)) ''10.0.0.5'' \<and>
   change_ip_address working_tor (example_operator\<lparr>ip_addresses := [''10.0.0.5'']\<rparr>)
     cascade_example ''A'' = (Inl KeyboardInterrupt, cascade_example) \<and>
   port_duplicate (Some (registered_devices cascade_example)) (Some (JStr ''10.0.0.5'')) 8080 \<and>
   change_webinterface_port (example_operator\<lparr>ports := [8080]\<rparr>) cascade_example ''A'' =
     (Inl KeyboardInterrupt, cascade_example)"
  by (simp add: cascade_example_def example_device_def working_tor_def example_ip_class_def
        ip_address_duplicate_def port_duplicate_def change_ip_address_def
        change_webinterface_port_def)

section \<open>A client for every device\<close>

lemma in_step_iff:
  "in_step st \<longleftrightarrow>
     distinct (map fst (registered_devices st)) \<and>
     (\<forall>name d. map_of (registered_devices st) name = Some d \<longrightarrow>
        synced (onion_service_main_dir st) name d)"
proof (cases "distinct (map fst (registered_devices st))")
  case False
  then show ?thesis by (simp add: in_step_def)
next
  case True
  then have "\<And>name d. (name, d) \<in> set (registered_devices st) \<longleftrightarrow>
      map_of (registered_devices st) name = Some d"
    by simp
  with True show ?thesis
    by (simp add: in_step_def list_all_iff split_beta) (metis prod.collapse fst_conv snd_conv)
qed

lemma syncedE:
  assumes "synced dirs name d"
  obtains content where "clients d \<noteq> []" "map_of dirs name = Some content"
    "set (map fst (authorized_clients content)) = set (map fst (clients d))"
  using assms by (auto simp: synced_def split: option.splits)

lemma in_step_have_clients: "in_step st \<Longrightarrow> devices_have_clients (registered_devices st)"
  by (auto simp: in_step_def devices_have_clients_def list_all_iff synced_def)


lemma synced_same_directory:
  "map_of dirs' name = map_of dirs name \<Longrightarrow> synced dirs' name d = synced dirs name d"
  by (simp add: synced_def)

lemma in_step_same:
  "registered_devices st' = registered_devices st \<Longrightarrow>
   onion_service_main_dir st' = onion_service_main_dir st \<Longrightarrow> in_step st' = in_step st"
  by (simp add: in_step_def)

lemma in_step_update:
  assumes st: "in_step st"
    and regs: "registered_devices st' = AList.update k v (registered_devices st)"
    and v: "synced (onion_service_main_dir st') k v"
    and others: "\<And>name d. name \<noteq> k \<Longrightarrow> map_of (registered_devices st) name = Some d \<Longrightarrow>
        map_of (onion_service_main_dir st') name = map_of (onion_service_main_dir st) name"
  shows "in_step st'"
proof -
  from st have dist: "distinct (map fst (registered_devices st))"
    and all: "\<And>name d. map_of (registered_devices st) name = Some d \<Longrightarrow>
        synced (onion_service_main_dir st) name d"
    by (simp_all add: in_step_iff)
  have "distinct (map fst (registered_devices st'))"
    unfolding regs using dist by (rule AList.distinct_update)
  moreover have "synced (onion_service_main_dir st') name d"
    if "map_of (registered_devices st') name = Some d" for name d
  proof (cases "name = k")
    case True
    with that v show ?thesis by (simp add: regs AList.update_conv')
  next
    case False
    with that have "map_of (registered_devices st) name = Some d"
      by (simp add: regs AList.update_conv')
    then have m: "map_of (registered_devices st) name = Some d" .
    then have "synced (onion_service_main_dir st) name d" by (rule all)
    with others [OF False m] show ?thesis
      using synced_same_directory
        [of "onion_service_main_dir st'" name "onion_service_main_dir st" d] by simp
  qed
  ultimately show ?thesis by (simp add: in_step_iff)
qed

lemma in_step_delete:
  assumes st: "in_step st"
    and regs: "registered_devices st' = AList.delete k (registered_devices st)"
    and others: "\<And>name d. name \<noteq> k \<Longrightarrow> map_of (registered_devices st) name = Some d \<Longrightarrow>
        map_of (onion_service_main_dir st') name = map_of (onion_service_main_dir st) name"
  shows "in_step st'"
proof -
  from st have dist: "distinct (map fst (registered_devices st))"
    and all: "\<And>name d. map_of (registered_devices st) name = Some d \<Longrightarrow>
        synced (onion_service_main_dir st) name d"
    by (simp_all add: in_step_iff)
  have "distinct (map fst (registered_devices st'))"
    unfolding regs using dist by (rule AList.distinct_delete)
  moreover have "synced (onion_service_main_dir st') name d"
    if "map_of (registered_devices st') name = Some d" for name d
  proof -
    from that have ne: "name \<noteq> k" by (auto simp: regs AList.delete_conv')
    with that have "map_of (registered_devices st) name = Some d"
      by (simp add: regs AList.delete_conv')
    then have m: "map_of (registered_devices st) name = Some d" .
    then have "synced (onion_service_main_dir st) name d" by (rule all)
    with others [OF ne m] show ?thesis
      using synced_same_directory
        [of "onion_service_main_dir st'" name "onion_service_main_dir st" d] by simp
  qed
  ultimately show ?thesis by (simp add: in_step_iff)
qed

lemma in_step_synced:
  "in_step st \<Longrightarrow> map_of (registered_devices st) name = Some d \<Longrightarrow>
     synced (onion_service_main_dir st) name d"
  by (simp add: in_step_iff)

lemma add_device_Inr:
  assumes "add_device C U st = (Inr x, st')"
  shows "st' = st \<or>
    (\<exists>device_name d content client_name public_key.
       registered_devices st' = AList.update device_name d (registered_devices st) \<and>
       onion_service_main_dir st' = AList.update device_name content (onion_service_main_dir st) \<and>
       clients d = [(client_name, JStr public_key)] \<and>
       authorized_clients content = [(client_name, public_key)] \<and>
       registered_devices_file st' = Some (json_dumps (registered_devices st')))"
proof (cases "st' = st")
  case True
  then show ?thesis by simp
next
  case False
  with assms obtain device_name ip p client_name public_key address where
    "registered_devices st' = AList.update device_name
       \<lparr>ip_address = JStr ip, port = JInt p, onion_address = JStr address,
        clients = [(client_name, JStr public_key)]\<rparr> (registered_devices st)"
    "onion_service_main_dir st' = AList.update device_name
       \<lparr>service_state = address, authorized_clients = [(client_name, public_key)]\<rparr>
       (onion_service_main_dir st)"
    "registered_devices_file st' = Some (json_dumps (registered_devices st'))"
    by (auto simp: add_device_def create_disk_v3_onion_service_def start_tor_def
          terminate_tor_def Let_def set_registered_devices_def
          split: sum.splits option.splits ip_class.splits)
  then show ?thesis by force
qed

lemma add_device_in_step:
  assumes st: "in_step st" and r: "add_device C U st = (Inr x, st')"
  shows "in_step st' \<and>
    (registered_devices_file st' = registered_devices_file st \<or>
     registered_devices_file st' = Some (json_dumps (registered_devices st')))"
proof -
  from add_device_Inr [OF r] show ?thesis
  proof (elim disjE exE conjE)
    assume "st' = st"
    with st show ?thesis by simp
  next
    fix device_name d content client_name public_key
    assume regs: "registered_devices st' = AList.update device_name d (registered_devices st)"
      and dirs: "onion_service_main_dir st' =
          AList.update device_name content (onion_service_main_dir st)"
      and cl: "clients d = [(client_name, JStr public_key)]"
      and au: "authorized_clients content = [(client_name, public_key)]"
      and f: "registered_devices_file st' = Some (json_dumps (registered_devices st'))"
    have "in_step st'"
    proof (rule in_step_update [OF st regs])
      show "synced (onion_service_main_dir st') device_name d"
        by (simp add: dirs cl au synced_def AList.update_conv')
      show "map_of (onion_service_main_dir st') name = map_of (onion_service_main_dir st) name"
        if "name \<noteq> device_name" for name and d' :: device
        using that by (simp add: dirs AList.update_conv')
    qed
    with f show ?thesis by simp
  qed
qed


lemma delete_device_in_step:
  assumes st: "in_step st" and r: "delete_device st device_name device_name = (Inr x, st')"
  shows "in_step st' \<and>
    (registered_devices_file st' = registered_devices_file st \<or>
     registered_devices_file st' = Some (json_dumps (registered_devices st')))"
proof -
  from r have
    regs: "registered_devices st' = AList.delete device_name (registered_devices st)"
    and dirs: "onion_service_main_dir st' = AList.delete device_name (onion_service_main_dir st)"
    and f: "registered_devices_file st' = Some (json_dumps (registered_devices st'))"
    by (auto simp: delete_device_def rmtree_def Let_def set_registered_devices_def
          split: if_splits)
  have "in_step st'"
  proof (rule in_step_delete [OF st regs])
    show "map_of (onion_service_main_dir st') name = map_of (onion_service_main_dir st) name"
      if "name \<noteq> device_name" for name and d :: device
      using that by (simp add: dirs AList.delete_conv')
  qed
  with f show ?thesis by simp
qed

lemma change_ip_address_in_step:
  assumes st: "in_step st" and r: "change_ip_address C U st device_name = (Inr x, st')"
  shows "in_step st' \<and>
    (registered_devices_file st' = registered_devices_file st \<or>
     registered_devices_file st' = Some (json_dumps (registered_devices st')))"
proof (cases "st' = st")
  case True
  with st show ?thesis by simp
next
  case False
  with r obtain d ip where d: "map_of (registered_devices st) device_name = Some d"
    and regs: "registered_devices st' =
        AList.update device_name (d\<lparr>ip_address := JStr ip\<rparr>) (registered_devices st)"
    and dirs: "onion_service_main_dir st' = onion_service_main_dir st"
    and f: "registered_devices_file st' = Some (json_dumps (registered_devices st'))"
    by (auto simp: change_ip_address_def set_registered_devices_def
          split: sum.splits option.splits ip_class.splits)
  have "in_step st'"
  proof (rule in_step_update [OF st regs])
    from in_step_synced [OF st d]
    show "synced (onion_service_main_dir st') device_name (d\<lparr>ip_address := JStr ip\<rparr>)"
      by (simp add: dirs synced_def split: option.splits)
    show "map_of (onion_service_main_dir st') name = map_of (onion_service_main_dir st) name"
      for name by (simp add: dirs)
  qed
  with f show ?thesis by simp
qed

lemma change_webinterface_port_in_step:
  assumes st: "in_step st" and r: "change_webinterface_port U st device_name = (Inr x, st')"
  shows "in_step st' \<and>
    (registered_devices_file st' = registered_devices_file st \<or>
     registered_devices_file st' = Some (json_dumps (registered_devices st')))"
proof -
  from r obtain d p where d: "map_of (registered_devices st) device_name = Some d"
    and regs: "registered_devices st' =
        AList.update device_name (d\<lparr>port := JInt p\<rparr>) (registered_devices st)"
    and dirs: "onion_service_main_dir st' = onion_service_main_dir st"
    and f: "registered_devices_file st' = Some (json_dumps (registered_devices st'))"
    by (auto simp: change_webinterface_port_def set_registered_devices_def
          split: sum.splits option.splits)
  have "in_step st'"
  proof (rule in_step_update [OF st regs])
    from in_step_synced [OF st d]
    show "synced (onion_service_main_dir st') device_name (d\<lparr>port := JInt p\<rparr>)"
      by (simp add: dirs synced_def split: option.splits)
    show "map_of (onion_service_main_dir st') name = map_of (onion_service_main_dir st) name"
      for name by (simp add: dirs)
  qed
  with f show ?thesis by simp
qed


lemma keys_update: "fst ` set (AList.update k v al) = insert k (fst ` set al)"
  using AList.dom_update [of k v al] by simp

lemma keys_delete: "fst ` set (AList.delete k al) = fst ` set al - {k}"
  using AList.delete_keys [of k al] by (metis set_map set_removeAll)

lemma rename_device_in_step:
  assumes st: "in_step st"
    and r: "rename_device U st device_name device_name = (Inr new_device_name, st')"
  shows "in_step st' \<and>
    (registered_devices_file st' = registered_devices_file st \<or>
     registered_devices_file st' = Some (json_dumps (registered_devices st')))"
proof -
  from r obtain d dirs where
    new: "prompt_device_name (registered_devices st) (device_names U) = Inr new_device_name"
    and mv: "replace_dir (onion_service_main_dir st) device_name new_device_name = Inr dirs"
    and d: "map_of (registered_devices st) device_name = Some d"
    and regs: "registered_devices st' = AList.update new_device_name d
        (AList.delete device_name (registered_devices st))"
    and dirs: "onion_service_main_dir st' = dirs"
    and f: "registered_devices_file st' = Some (json_dumps (registered_devices st'))"
    by (auto simp: rename_device_def Let_def set_registered_devices_def
          split: sum.splits option.splits)
  from new have fresh: "new_device_name \<notin> set (map fst (registered_devices st))"
    by (rule prompt_device_name_fresh)
  from d have "device_name \<in> set (map fst (registered_devices st))" by (rule map_of_keys)
  with fresh have ne: "new_device_name \<noteq> device_name" by auto
  from mv ne obtain content where
    c: "map_of (onion_service_main_dir st) device_name = Some content"
    and dirs': "dirs = AList.update new_device_name content
        (AList.delete device_name (onion_service_main_dir st))"
    by (auto simp: replace_dir_def split: option.splits if_splits)
  let ?st1 = "st'\<lparr>registered_devices := AList.delete device_name (registered_devices st)\<rparr>"
  have fresh_None: "map_of (registered_devices st) new_device_name = None"
    using fresh by (simp add: map_of_eq_None_iff)
  have one: "in_step ?st1"
  proof (rule in_step_delete [OF st])
    show "registered_devices ?st1 = AList.delete device_name (registered_devices st)" by simp
    show "map_of (onion_service_main_dir ?st1) name = map_of (onion_service_main_dir st) name"
      if "name \<noteq> device_name" "map_of (registered_devices st) name = Some d'" for name d'
    proof -
      from that(2) fresh_None have "name \<noteq> new_device_name" by auto
      with that(1) show ?thesis
        by (simp add: dirs dirs' AList.update_conv' AList.delete_conv')
    qed
  qed
  have "in_step st'"
  proof (rule in_step_update [OF one])
    show "registered_devices st' = AList.update new_device_name d (registered_devices ?st1)"
      by (simp add: regs)
    from in_step_synced [OF st d] c
    show "synced (onion_service_main_dir st') new_device_name d"
      by (simp add: dirs dirs' synced_def AList.update_conv')
    show "map_of (onion_service_main_dir st') name = map_of (onion_service_main_dir ?st1) name"
      for name by simp
  qed
  with f show ?thesis by simp
qed

lemma add_client_in_step:
  assumes st: "in_step st"
    and r: "add_client C st device_name client_name public_key = (Inr x, st')"
  shows "in_step st' \<and>
    (registered_devices_file st' = registered_devices_file st \<or>
     registered_devices_file st' = Some (json_dumps (registered_devices st')))"
proof -
  from r have k: "device_name \<in> set (map fst (onion_service_main_dir st))"
    by (auto simp: add_client_def split: if_splits)
  then obtain content where c: "map_of (onion_service_main_dir st) device_name = Some content"
    by (cases "map_of (onion_service_main_dir st) device_name")
       (auto simp: map_of_eq_None_iff)
  from r k have o: "add_auth_outcome C device_name public_key client_name = None"
    by (cases "add_auth_outcome C device_name public_key client_name")
       (auto simp: add_client_def add_disk_v3_onion_service_auth_def)
  from r k c o obtain d where d: "map_of (registered_devices st) device_name = Some d"
    by (cases "map_of (registered_devices st) device_name")
       (auto simp: add_client_def add_disk_v3_onion_service_auth_def Let_def)
  from r have s: "st' = snd (add_client C st device_name client_name public_key)" by simp
  note res = add_client_succeeds [OF c o d]
  have regs: "registered_devices st' = AList.update device_name
        (d\<lparr>clients := AList.update client_name (JStr public_key) (clients d)\<rparr>)
        (registered_devices st)"
    and dirs: "onion_service_main_dir st' = AList.update device_name
        (content\<lparr>authorized_clients :=
           AList.update client_name public_key (authorized_clients content)\<rparr>)
        (onion_service_main_dir st)"
    and f: "registered_devices_file st' = Some (json_dumps (registered_devices st'))"
    unfolding s res by simp_all
  have "in_step st'"
  proof (rule in_step_update [OF st regs])
    from in_step_synced [OF st d] c
    show "synced (onion_service_main_dir st') device_name
        (d\<lparr>clients := AList.update client_name (JStr public_key) (clients d)\<rparr>)"
      by (simp add: dirs synced_def AList.update_conv' keys_update)
    show "map_of (onion_service_main_dir st') name = map_of (onion_service_main_dir st) name"
      if "name \<noteq> device_name" for name and d' :: device
      using that by (simp add: dirs AList.update_conv')
  qed
  with f show ?thesis by simp
qed

lemma rename_client_in_step:
  assumes st: "in_step st"
    and r: "rename_client U st device_name device_name client_name = (Inr new_client_name, st')"
  shows "in_step st' \<and>
    (registered_devices_file st' = registered_devices_file st \<or>
     registered_devices_file st' = Some (json_dumps (registered_devices st')))"
proof -
  from r obtain dirs d key where
    mv: "replace_file (onion_service_main_dir st) device_name client_name new_client_name
        = Inr dirs"
    and d: "map_of (registered_devices st) device_name = Some d"
    and key: "map_of (clients d) client_name = Some key"
    and regs: "registered_devices st' = AList.update device_name
        (d\<lparr>clients := AList.update new_client_name key
                         (AList.delete client_name (clients d))\<rparr>) (registered_devices st)"
    and dirs: "onion_service_main_dir st' = dirs"
    and f: "registered_devices_file st' = Some (json_dumps (registered_devices st'))"
    by (auto simp: rename_client_def Let_def set_registered_devices_def
          split: sum.splits option.splits)
  from mv obtain content key' where
    c: "map_of (onion_service_main_dir st) device_name = Some content"
    and dirs': "dirs = AList.update device_name
        (content\<lparr>authorized_clients := AList.update new_client_name key'
           (AList.delete client_name (authorized_clients content))\<rparr>) (onion_service_main_dir st)"
    by (auto simp: replace_file_def split: option.splits)
  have "in_step st'"
  proof (rule in_step_update [OF st regs])
    from in_step_synced [OF st d] c
    show "synced (onion_service_main_dir st') device_name
        (d\<lparr>clients := AList.update new_client_name key (AList.delete client_name (clients d))\<rparr>)"
      by (simp add: dirs dirs' synced_def AList.update_conv' keys_update keys_delete)
    show "map_of (onion_service_main_dir st') name = map_of (onion_service_main_dir st) name"
      if "name \<noteq> device_name" for name and d' :: device
      using that by (simp add: dirs dirs' AList.update_conv')
  qed
  with f show ?thesis by simp
qed


lemma delete_client_in_step:
  assumes st: "in_step st"
    and r: "delete_client st device_name device_name client_name = (Inr x, st')"
  shows "in_step st' \<and>
    (registered_devices_file st' = registered_devices_file st \<or>
     registered_devices_file st' = Some (json_dumps (registered_devices st')))"
proof -
  from r obtain dirs where
    u: "unlink (onion_service_main_dir st) device_name client_name = Inr dirs"
    by (cases "unlink (onion_service_main_dir st) device_name client_name")
       (auto simp: delete_client_def)
  from r u obtain d where d: "map_of (registered_devices st) device_name = Some d"
    by (cases "map_of (registered_devices st) device_name")
       (auto simp: delete_client_def Let_def)
  from r u d have client: "client_name \<in> set (map fst (clients d))"
    by (cases "client_name \<in> set (map fst (clients d))")
       (auto simp: delete_client_def Let_def)
  from in_step_synced [OF st d] obtain content where
    ne: "clients d \<noteq> []"
    and c: "map_of (onion_service_main_dir st) device_name = Some content"
    and sync: "set (map fst (authorized_clients content)) = set (map fst (clients d))"
    by (rule syncedE)
  from r have s: "st' = snd (delete_client st device_name device_name client_name)" by simp
  note res = delete_client_result [OF d c sync client]
  show ?thesis
  proof (cases "AList.delete client_name (clients d) = []")
    case True
    have regs: "registered_devices st' = AList.delete device_name (registered_devices st)"
      and dirs: "onion_service_main_dir st' =
          AList.delete device_name (onion_service_main_dir st)"
      and f: "registered_devices_file st' = Some (json_dumps (registered_devices st'))"
      unfolding s res using True by (simp_all add: Let_def)
    have "in_step st'"
    proof (rule in_step_delete [OF st regs])
      show "map_of (onion_service_main_dir st') name = map_of (onion_service_main_dir st) name"
        if "name \<noteq> device_name" for name and d' :: device
        using that by (simp add: dirs AList.delete_conv')
    qed
    with f show ?thesis by simp
  next
    case False
    have regs: "registered_devices st' = AList.update device_name
          (d\<lparr>clients := AList.delete client_name (clients d)\<rparr>) (registered_devices st)"
      and dirs: "onion_service_main_dir st' = AList.update device_name
          (content\<lparr>authorized_clients :=
             AList.delete client_name (authorized_clients content)\<rparr>)
          (onion_service_main_dir st)"
      and f: "registered_devices_file st' = Some (json_dumps (registered_devices st'))"
      unfolding s res using False by (simp_all add: Let_def)
    have "in_step st'"
    proof (rule in_step_update [OF st regs])
      from sync False
      show "synced (onion_service_main_dir st') device_name
          (d\<lparr>clients := AList.delete client_name (clients d)\<rparr>)"
        by (simp add: dirs synced_def AList.update_conv' keys_delete)
      show "map_of (onion_service_main_dir st') name = map_of (onion_service_main_dir st) name"
        if "name \<noteq> device_name" for name and d' :: device
        using that by (simp add: dirs AList.update_conv')
    qed
    with f show ?thesis by simp
  qed
qed

lemma manage_in_step:
  assumes st: "in_step st" and r: "manage C U st choice = (Inr x, st')"
  shows "in_step st' \<and>
    (registered_devices_file st' = registered_devices_file st \<or>
     registered_devices_file st' = Some (json_dumps (registered_devices st')))"
proof (cases choice)
  case AddDevice
  with r have "add_device C U st = (Inr x, st')" by (simp add: manage_def)
  with st show ?thesis by (rule add_device_in_step)
next
  case (DeleteDevice device_name)
  with r have "delete_device st device_name device_name = (Inr x, st')"
    by (simp add: manage_def)
  with st show ?thesis by (rule delete_device_in_step)
next
  case (ChangeIpAddress device_name)
  with r have "change_ip_address C U st device_name = (Inr x, st')" by (simp add: manage_def)
  with st show ?thesis by (rule change_ip_address_in_step)
next
  case (ChangeWebinterfacePort device_name)
  with r have "change_webinterface_port U st device_name = (Inr x, st')"
    by (simp add: manage_def)
  with st show ?thesis by (rule change_webinterface_port_in_step)
next
  case (RenameDevice device_name)
  with r obtain new_device_name where
    "rename_device U st device_name device_name = (Inr new_device_name, st')"
    by (auto simp: manage_def split: prod.splits sum.splits)
  with st show ?thesis by (rule rename_device_in_step)
next
  case (AddClient device_name)
  with r obtain client_name public_key where
    "add_client C st device_name client_name public_key = (Inr x, st')"
    by (auto simp: manage_def split: sum.splits)
  with st show ?thesis by (rule add_client_in_step)
next
  case (RenameClient device_name client_name)
  with r obtain new_client_name where
    "rename_client U st device_name device_name client_name = (Inr new_client_name, st')"
    by (auto simp: manage_def split: prod.splits sum.splits)
  with st show ?thesis by (rule rename_client_in_step)
next
  case (DeleteClient device_name client_name)
  with r have "delete_client st device_name device_name client_name = (Inr x, st')"
    by (simp add: manage_def)
  with st show ?thesis by (rule delete_client_in_step)
qed

text \<open>
  Claim C1, as the code has it. When an operation of the management menus returns from
  a state in which registry and directories are in step, they are in step again: every
  device of the registry has a client, and the registry file is either untouched or
  holds that registry. The snapshot that \<^verbatim>\<open>_delete_client\<close> saves before it looks for
  remaining authorization files is not covered: see the counterexample.
\<close>

theorem operations_leave_every_device_a_client:
  assumes "in_step st" and "manage C U st choice = (Inr x, st')"
  shows "in_step st' \<and> devices_have_clients (registered_devices st') \<and>
    (registered_devices_file st' = registered_devices_file st \<or>
     registered_devices_file st' = Some (json_dumps (registered_devices st')))"
proof -
  from assms have "in_step st' \<and>
    (registered_devices_file st' = registered_devices_file st \<or>
     registered_devices_file st' = Some (json_dumps (registered_devices st')))"
    by (rule manage_in_step)
  then show ?thesis by (simp add: in_step_have_clients)
qed

theorem operations_leave_every_device_a_client_witness:
  "in_step two_devices \<and>
   manage working_tor example_operator two_devices (DeleteClient ''A'' ''c1'') =
     (Inr (),
      two_devices\<lparr>registered_devices := [(''C'', other_device)],
        registered_devices_file := Some (json_dumps [(''C'', other_device)]),
        snapshots := [[(''C'', other_device)],
                      [(''A'', example_device\<lparr>clients := []\<rparr>), (''C'', other_device)]],
        onion_service_main_dir :=
          [(''C'', \<lparr>service_state = ''efgh...onion'', authorized_clients = [(''c2'', ''KEY3'')]\<rparr>),
           (''B'', \<lparr>service_state = ''ijkl...onion'', authorized_clients = []\<rparr>)]\<rparr>) \<and>
   in_step (snd (manage working_tor example_operator two_devices (DeleteClient ''A'' ''c1''))) \<and>
   devices_have_clients (registered_devices
     (snd (manage working_tor example_operator two_devices (DeleteClient ''A'' ''c1''))))"
proof -
  have h: "in_step two_devices"
    by (simp add: in_step_def synced_def two_devices_def example_device_def other_device_def)
  have m: "manage working_tor example_operator two_devices (DeleteClient ''A'' ''c1'') =
     (Inr (),
      two_devices\<lparr>registered_devices := [(''C'', other_device)],
        registered_devices_file := Some (json_dumps [(''C'', other_device)]),
        snapshots := [[(''C'', other_device)],
                      [(''A'', example_device\<lparr>clients := []\<rparr>), (''C'', other_device)]],
        onion_service_main_dir :=
          [(''C'', \<lparr>service_state = ''efgh...onion'', authorized_clients = [(''c2'', ''KEY3'')]\<rparr>),
           (''B'', \<lparr>service_state = ''ijkl...onion'', authorized_clients = []\<rparr>)]\<rparr>)"
    by (simp add: manage_def delete_client_def delete_device_def unlink_def rmtree_def
          check_existing_onion_service_auth_def set_registered_devices_def Let_def
          two_devices_def example_device_def)
  from operations_leave_every_device_a_client [OF h m] h m show ?thesis by simp
qed

text \<open>
  Claim C1 as it is written fails on the save in the middle of \<^verbatim>\<open>_delete_client\<close>:
  deleting the last client of device A writes a registry in which A has no client, and
  only then the registry without A.
\<close>

theorem delete_client_saves_a_device_without_clients:
  "in_step cascade_example \<and>
   snapshots cascade_example = [] \<and>
   snapshots (snd (delete_client cascade_example ''A'' ''A'' ''c1'')) =
     [[], [(''A'', example_device\<lparr>clients := []\<rparr>)]] \<and>
   \<not> list_all devices_have_clients
       (snapshots (snd (delete_client cascade_example ''A'' ''A'' ''c1'')))"
  by (simp add: in_step_def synced_def devices_have_clients_def delete_client_def
        delete_device_def unlink_def rmtree_def check_existing_onion_service_auth_def
        set_registered_devices_def Let_def cascade_example_def example_device_def)

end
